theory Spec2Isabelle
  imports Complex_Main "HOL-Library.Log_Nat"
begin

section \<open>Numeric values and series\<close>

text \<open>
  The source computes on pandas columns of Python floats. A float is modelled as a real
  number, or one of the three special values. In the indicators, the events and the
  scores, which decide the return that is taken, the arithmetic is exact: rounding and
  overflow are not modelled there. The two computations whose stated properties depend
  on the rounding, \<open>vwap\<close> and the levels of a directional return, are given a second
  time with every operation rounded as binary64 rounds it (\<open>vwap_f64\<close>,
  \<open>long_levels_f64\<close>, \<open>short_levels_f64\<close>).
  The columns of a bar (open, high, low, close, volume) are taken to be finite, so they
  are plain reals; the special values arise in derived series (warm-up of a rolling
  window, a shifted series, a reindexed series) and in the series a caller supplies.
\<close>

datatype fl = Fin real | PInf | NInf | NaN

type_synonym timestamp = int

text \<open>A pandas Series with its index: the labels and the values, in order.\<close>

type_synonym series = "(timestamp \<times> fl) list"

datatype error = IndexError | ValueError

text \<open>Comparisons of floats: every comparison with NaN is false.\<close>

definition fl_lt :: "fl \<Rightarrow> fl \<Rightarrow> bool" where
  "fl_lt a b =
     (case (a, b) of
        (Fin x, Fin y) \<Rightarrow> x < y
      | (Fin _, PInf) \<Rightarrow> True
      | (NInf, Fin _) \<Rightarrow> True
      | (NInf, PInf) \<Rightarrow> True
      | _ \<Rightarrow> False)"

definition fl_gt :: "fl \<Rightarrow> fl \<Rightarrow> bool" where
  "fl_gt a b = fl_lt b a"

definition fl_le :: "fl \<Rightarrow> fl \<Rightarrow> bool" where
  "fl_le a b = (a \<noteq> NaN \<and> b \<noteq> NaN \<and> \<not> fl_lt b a)"

definition fl_ge :: "fl \<Rightarrow> fl \<Rightarrow> bool" where
  "fl_ge a b = fl_le b a"

text \<open>\<open>np.isfinite\<close>.\<close>

fun isfinite :: "fl \<Rightarrow> bool" where
  "isfinite (Fin _) = True"
| "isfinite _ = False"

text \<open>One row of the OHLCV frame; \<open>b_ts\<close> is its index label.\<close>

record bar =
  b_ts :: timestamp
  b_open :: real
  b_high :: real
  b_low :: real
  b_close :: real
  b_volume :: real

text \<open>
  \<open>DataFrame.tail(n)\<close>: the last \<open>n\<close> rows; no row for \<open>n = 0\<close>; for a negative
  \<open>n\<close> all rows but the first \<open>-n\<close>.
\<close>

definition tail_df :: "int \<Rightarrow> 'a list \<Rightarrow> 'a list" where
  "tail_df n xs =
     (if n = 0 then []
      else if 0 < n then drop (length xs - nat n) xs
      else drop (nat (- n)) xs)"

text \<open>\<open>Series.shift(k)\<close> for \<open>k \<ge> 0\<close>: the values move down, NaN fills the top.\<close>

definition shift :: "nat \<Rightarrow> fl list \<Rightarrow> fl list" where
  "shift k xs = replicate (min k (length xs)) NaN @ take (length xs - k) xs"

text \<open>
  \<open>Series.reindex(index)\<close>: the value at each label of the new index, NaN where the
  series has no such label. pandas returns a copy when the new index is the series' own,
  and raises ValueError when the series has duplicate labels.
\<close>

definition reindex :: "series \<Rightarrow> timestamp list \<Rightarrow> error + fl list" where
  "reindex s idx =
     (if map fst s = idx then Inr (map snd s)
      else if distinct (map fst s)
        then Inr (map (\<lambda>t. case map_of s t of None \<Rightarrow> NaN | Some v \<Rightarrow> v) idx)
      else Inl ValueError)"

text \<open>\<open>Series.ffill()\<close>: a NaN takes the last value before it that is not NaN.\<close>

fun ffill_from :: "fl \<Rightarrow> fl list \<Rightarrow> fl list" where
  "ffill_from prev [] = []"
| "ffill_from prev (x # xs) = (let y = (if x = NaN then prev else x) in y # ffill_from y xs)"

definition ffill :: "fl list \<Rightarrow> fl list" where
  "ffill xs = ffill_from NaN xs"

fun cumsum_from :: "real \<Rightarrow> real list \<Rightarrow> real list" where
  "cumsum_from acc [] = []"
| "cumsum_from acc (x # xs) = (acc + x) # cumsum_from (acc + x) xs"

definition cumsum :: "real list \<Rightarrow> real list" where
  "cumsum xs = cumsum_from 0 xs"

text \<open>
  \<open>Series.min()\<close> and \<open>Series.max()\<close> on a series without NaN. They are applied to
  non-empty series only; the value given for the empty list stands for nothing in the
  source.
\<close>

fun minimum :: "real list \<Rightarrow> real" where
  "minimum [] = 0"
| "minimum [x] = x"
| "minimum (x # y # ys) = min x (minimum (y # ys))"

fun maximum :: "real list \<Rightarrow> real" where
  "maximum [] = 0"
| "maximum [x] = x"
| "maximum (x # y # ys) = max x (maximum (y # ys))"

subsection \<open>Binary64 arithmetic\<close>

text \<open>
  A Python float is an IEEE 754 binary64 number, and every arithmetic operation on
  floats returns the exact result rounded to the nearest number with a significand of
  53 bits, a tie going to the even significand. \<open>rnd\<close> is that rounding: \<open>binade x\<close> is
  the exponent \<open>e\<close> with \<open>2^e \<le> \<bar>x\<bar> < 2^(e+1)\<close>, and \<open>rnd x\<close> is the multiple of
  \<open>2^(e-52)\<close> nearest to \<open>x\<close>. The exponent is not bounded: a result of magnitude
  \<open>2^1024\<close> or more, which binary64 replaces by an infinity, and the coarser grid
  below \<open>2^(-1022)\<close> are not modelled, and the properties that are stated with \<open>rnd\<close>
  bound their inputs so that every result that is not zero has a magnitude between
  these two.
\<close>

definition round_half_even :: "real \<Rightarrow> int" where
  "round_half_even y =
     (let f = \<lfloor>y\<rfloor>; r = y - of_int f
      in if r < 1 / 2 then f else if 1 / 2 < r then f + 1 else if even f then f else f + 1)"

definition binade :: "real \<Rightarrow> int" where
  "binade x =
     (if 1 \<le> \<bar>x\<bar> then bitlen \<lfloor>\<bar>x\<bar>\<rfloor> - 1 else - bitlen (\<lceil>1 / \<bar>x\<bar>\<rceil> - 1))"

definition rnd :: "real \<Rightarrow> real" where
  "rnd x =
     (if x = 0 then 0
      else of_int (round_half_even (x / 2 powi (binade x - 52))) * 2 powi (binade x - 52))"



section \<open>indicators.py\<close>

subsection \<open>vwap\<close>

text \<open>
  \<open>tp = (high + low + close) / 3\<close>, \<open>pv = tp * volume\<close>, and the result is
  \<open>pv.cumsum() / volume.cumsum().replace(0, nan)\<close>.
\<close>

definition tp :: "bar \<Rightarrow> real" where
  "tp b = (b_high b + b_low b + b_close b) / 3"

definition pv :: "bar \<Rightarrow> real" where
  "pv b = tp b * b_volume b"

definition vwap :: "bar list \<Rightarrow> fl list" where
  "vwap df =
     map2 (\<lambda>p c. if c = 0 then NaN else Fin (p / c))
       (cumsum (map pv df)) (cumsum (map b_volume df))"




subsection \<open>atr\<close>

text \<open>
  The true range takes the row-wise maximum of three columns; pandas skips the NaN of
  the first row's previous close.
\<close>

fun tr_from :: "real option \<Rightarrow> bar list \<Rightarrow> real list" where
  "tr_from prev [] = []"
| "tr_from prev (b # bs) =
     (case prev of
        None \<Rightarrow> \<bar>b_high b - b_low b\<bar>
      | Some pc \<Rightarrow> max (max \<bar>b_high b - b_low b\<bar> \<bar>b_high b - pc\<bar>) \<bar>b_low b - pc\<bar>)
     # tr_from (Some (b_close b)) bs"

definition rolling_mean :: "nat \<Rightarrow> real list \<Rightarrow> fl list" where
  "rolling_mean period xs =
     map (\<lambda>i. if period \<le> i + 1
               then Fin (sum_list (take period (drop (i + 1 - period) xs)) / real period)
               else NaN)
       [0..<length xs]"

definition atr :: "bar list \<Rightarrow> nat \<Rightarrow> fl list" where
  "atr df period = rolling_mean period (tr_from None df)"

subsection \<open>ema\<close>

text \<open>\<open>series.ewm(span=span, adjust=False).mean()\<close> on a series without NaN.\<close>

fun ema_from :: "real \<Rightarrow> real \<Rightarrow> real list \<Rightarrow> real list" where
  "ema_from \<alpha> prev [] = []"
| "ema_from \<alpha> prev (x # xs) =
     (let y = (1 - \<alpha>) * prev + \<alpha> * x in y # ema_from \<alpha> y xs)"

definition ema :: "real list \<Rightarrow> nat \<Rightarrow> real list" where
  "ema xs spn =
     (case xs of [] \<Rightarrow> [] | x # rest \<Rightarrow> x # ema_from (2 / (real spn + 1)) x rest)"

subsection \<open>rolling_swing_lows, rolling_swing_highs\<close>

definition rolling_swing_lows :: "real list \<Rightarrow> nat \<Rightarrow> nat \<Rightarrow> bool list" where
  "rolling_swing_lows s left right =
     map (\<lambda>i. left \<le> i \<and> i + right < length s \<and>
               s ! i = minimum (take (left + right + 1) (drop (i - left) s)))
       [0..<length s]"

definition rolling_swing_highs :: "real list \<Rightarrow> nat \<Rightarrow> nat \<Rightarrow> bool list" where
  "rolling_swing_highs s left right =
     map (\<lambda>i. left \<le> i \<and> i + right < length s \<and>
               s ! i = maximum (take (left + right + 1) (drop (i - left) s)))
       [0..<length s]"

subsection \<open>detect_fvg\<close>

type_synonym zone = "real \<times> real"

definition fvg_step ::
  "real list \<Rightarrow> real list \<Rightarrow> zone option \<times> zone option \<Rightarrow> nat \<Rightarrow> zone option \<times> zone option"
where
  "fvg_step h l acc i =
     (let bull = (if l ! i > h ! (i - 2) then Some (h ! (i - 2), l ! i) else fst acc);
          bear = (if h ! i < l ! (i - 2) then Some (h ! i, l ! (i - 2)) else snd acc)
      in (bull, bear))"

definition detect_fvg :: "bar list \<Rightarrow> zone option \<times> zone option" where
  "detect_fvg df =
     (if length df < 3 then (None, None)
      else foldl (fvg_step (map b_high df) (map b_low df)) (None, None) [2..<length df])"

subsection \<open>find_order_block\<close>

text \<open>
  The inner loop \<open>for j in range(i + 1, min(i + 4, len(df)))\<close> of the bullish search and
  of the bearish one.
\<close>

definition displaced_up :: "bar list \<Rightarrow> real \<Rightarrow> nat \<Rightarrow> bool" where
  "displaced_up w atr_i i =
     list_ex (\<lambda>j. b_close (w ! j) > b_high (w ! i) \<and>
                  b_close (w ! j) - b_close (w ! i) > 1 * atr_i)
       [i + 1..<min (i + 4) (length w)]"

definition displaced_down :: "bar list \<Rightarrow> real \<Rightarrow> nat \<Rightarrow> bool" where
  "displaced_down w atr_i i =
     list_ex (\<lambda>j. b_close (w ! j) < b_low (w ! i) \<and>
                  b_close (w ! i) - b_close (w ! j) > 1 * atr_i)
       [i + 1..<min (i + 4) (length w)]"

text \<open>
  \<open>atr_i = at[i] if np.isfinite(at[i]) else None\<close>, and \<open>if not atr_i: continue\<close>:
  the value when it is finite and not zero.
\<close>

fun usable_atr :: "fl \<Rightarrow> real option" where
  "usable_atr (Fin a) = (if a = 0 then None else Some a)"
| "usable_atr _ = None"

text \<open>
  The outer loop \<open>for i in range(len(df) - 4, -1, -1)\<close>: \<open>scan_bull w atv k\<close> visits
  the positions \<open>k - 1, k - 2, ..., 0\<close> and returns the first one that qualifies.
\<close>

fun scan_bull :: "bar list \<Rightarrow> fl list \<Rightarrow> nat \<Rightarrow> nat option" where
  "scan_bull w atv 0 = None"
| "scan_bull w atv (Suc i) =
     (if b_close (w ! i) < b_open (w ! i) then
        (case usable_atr (atv ! i) of
           None \<Rightarrow> scan_bull w atv i
         | Some atr_i \<Rightarrow> if displaced_up w atr_i i then Some i else scan_bull w atv i)
      else scan_bull w atv i)"

fun scan_bear :: "bar list \<Rightarrow> fl list \<Rightarrow> nat \<Rightarrow> nat option" where
  "scan_bear w atv 0 = None"
| "scan_bear w atv (Suc i) =
     (if b_close (w ! i) > b_open (w ! i) then
        (case usable_atr (atv ! i) of
           None \<Rightarrow> scan_bear w atv i
         | Some atr_i \<Rightarrow> if displaced_down w atr_i i then Some i else scan_bear w atv i)
      else scan_bear w atv i)"

type_synonym order_block = "real \<times> real \<times> timestamp"

text \<open>
  The window \<open>df.tail(lookback)\<close> and the ATR values on it,
  \<open>atr_series.reindex(df.index).ffill().values\<close>.
\<close>

definition ob_window :: "bar list \<Rightarrow> int \<Rightarrow> bar list" where
  "ob_window df lookback = tail_df lookback df"

definition ob_atr :: "bar list \<Rightarrow> series \<Rightarrow> int \<Rightarrow> error + fl list" where
  "ob_atr df atr_series lookback =
     (case reindex atr_series (map b_ts (ob_window df lookback)) of
        Inl e \<Rightarrow> Inl e
      | Inr vs \<Rightarrow> Inr (ffill vs))"

text \<open>
  The position the search stops at, in the window; the first position visited is
  \<open>len(df) - 4\<close>, and none is visited when the window has fewer than four bars.
\<close>

definition ob_index :: "bar list \<Rightarrow> fl list \<Rightarrow> string \<Rightarrow> nat option" where
  "ob_index w atv side =
     (if side = ''bull'' then scan_bull w atv (length w - 3)
      else scan_bear w atv (length w - 3))"

definition ob_zone :: "bar list \<Rightarrow> string \<Rightarrow> nat \<Rightarrow> order_block" where
  "ob_zone w side i =
     (if side = ''bull'' then
        (let zone_low = b_low (w ! i); zone_high = b_open (w ! i)
         in (min zone_low zone_high, max zone_low zone_high, b_ts (w ! i)))
      else
        (let zone_high = b_high (w ! i); zone_low = b_open (w ! i)
         in (min zone_low zone_high, max zone_low zone_high, b_ts (w ! i))))"

text \<open>
  The result \<open>(None, None, None)\<close> of the source is \<open>None\<close> here, a zone with its
  timestamp is \<open>Some\<close>.
\<close>

definition find_order_block ::
  "bar list \<Rightarrow> series \<Rightarrow> string \<Rightarrow> int \<Rightarrow> error + order_block option"
where
  "find_order_block df atr_series side lookback =
     (if length df < 10 then Inr None
      else
        (case ob_atr df atr_series lookback of
           Inl e \<Rightarrow> Inl e
         | Inr atv \<Rightarrow>
             (let w = ob_window df lookback
              in Inr (map_option (ob_zone w side) (ob_index w atv side)))))"

subsection \<open>in_zone\<close>

definition in_zone :: "real \<Rightarrow> real \<Rightarrow> real \<Rightarrow> real \<Rightarrow> bool" where
  "in_zone price zone_low zone_high buffer =
     (let lo = zone_low - buffer; hi = zone_high + buffer
      in price \<ge> lo \<and> price \<le> hi)"

section \<open>signals.py\<close>

subsection \<open>Results and presets\<close>

datatype extra =
  XFloat real | XBool bool | XZone "zone option" | XOrderBlock "order_block option"

record SignalResult =
  symbol :: string
  bias :: string
  setup_score :: int
  reason :: string
  entry :: "real option"
  stop :: "real option"
  target_1r :: "real option"
  target_2r :: "real option"
  last_price :: "real option"
  timestamp :: "timestamp option"
  session :: string
  extras :: "(string \<times> extra) list"

record preset =
  min_actionable_score :: int
  vol_multiplier :: real
  require_volume :: int
  require_macd_turn :: int
  require_vwap_event :: int
  require_rsi_event :: int

definition fast_scalp :: preset where
  "fast_scalp =
     \<lparr>min_actionable_score = 70, vol_multiplier = 1.15, require_volume = 0,
      require_macd_turn = 1, require_vwap_event = 1, require_rsi_event = 1\<rparr>"

definition cleaner_signals :: preset where
  "cleaner_signals =
     \<lparr>min_actionable_score = 80, vol_multiplier = 1.35, require_volume = 1,
      require_macd_turn = 1, require_vwap_event = 1, require_rsi_event = 1\<rparr>"

definition PRESETS :: "(string \<times> preset) list" where
  "PRESETS = [(''Fast scalp'', fast_scalp), (''Cleaner signals'', cleaner_signals)]"

text \<open>\<open>PRESETS.get(mode, PRESETS["Cleaner signals"])\<close>.\<close>

definition PRESETS_get :: "string \<Rightarrow> preset" where
  "PRESETS_get mode = (case map_of PRESETS mode of None \<Rightarrow> cleaner_signals | Some c \<Rightarrow> c)"

subsection \<open>Strings\<close>

fun str_join :: "string \<Rightarrow> string list \<Rightarrow> string" where
  "str_join sep [] = []"
| "str_join sep [x] = x"
| "str_join sep (x # y # ys) = x @ sep @ str_join sep (y # ys)"

fun str_nat :: "nat \<Rightarrow> string" where
  "str_nat n =
     (if n < 10 then [''0123456789'' ! n]
      else str_nat (n div 10) @ [''0123456789'' ! (n mod 10)])"

definition str_int :: "int \<Rightarrow> string" where
  "str_int i = (if i < 0 then CHR ''-'' # str_nat (nat (- i)) else str_nat (nat i))"

subsection \<open>Events on the final bar\<close>

definition closes :: "bar list \<Rightarrow> fl list" where
  "closes df = map (\<lambda>b. Fin (b_close b)) df"

definition was_below_vwap :: "bar list \<Rightarrow> bool" where
  "was_below_vwap df =
     (last (map2 fl_lt (shift 3 (closes df)) (shift 3 (vwap df))) \<or>
      last (map2 fl_lt (shift 5 (closes df)) (shift 5 (vwap df))))"

definition reclaim_vwap :: "bar list \<Rightarrow> bool" where
  "reclaim_vwap df =
     (fl_gt (last (closes df)) (last (vwap df)) \<and>
      fl_le (last (shift 1 (closes df))) (last (shift 1 (vwap df))))"

definition was_above_vwap :: "bar list \<Rightarrow> bool" where
  "was_above_vwap df =
     (last (map2 fl_gt (shift 3 (closes df)) (shift 3 (vwap df))) \<or>
      last (map2 fl_gt (shift 5 (closes df)) (shift 5 (vwap df))))"

definition reject_vwap :: "bar list \<Rightarrow> bool" where
  "reject_vwap df =
     (fl_lt (last (closes df)) (last (vwap df)) \<and>
      fl_ge (last (shift 1 (closes df))) (last (shift 1 (vwap df))))"

definition rsi_snap :: "fl list \<Rightarrow> bool" where
  "rsi_snap rsi_fast =
     (let rsi5 = last rsi_fast
      in (fl_ge rsi5 (Fin 30) \<and> fl_lt (last (shift 1 rsi_fast)) (Fin 30)) \<or>
         (fl_ge rsi5 (Fin 25) \<and> fl_lt (last (shift 1 rsi_fast)) (Fin 25)))"

definition rsi_downshift :: "fl list \<Rightarrow> bool" where
  "rsi_downshift rsi_fast =
     (let rsi5 = last rsi_fast
      in (fl_le rsi5 (Fin 70) \<and> fl_gt (last (shift 1 rsi_fast)) (Fin 70)) \<or>
         (fl_le rsi5 (Fin 75) \<and> fl_gt (last (shift 1 rsi_fast)) (Fin 75)))"

definition macd_turn_up :: "fl list \<Rightarrow> bool" where
  "macd_turn_up macd_hist =
     (fl_gt (last macd_hist) (last (shift 1 macd_hist)) \<and>
      fl_gt (last (shift 1 macd_hist)) (last (shift 2 macd_hist)))"

definition macd_turn_down :: "fl list \<Rightarrow> bool" where
  "macd_turn_down macd_hist =
     (fl_lt (last macd_hist) (last (shift 1 macd_hist)) \<and>
      fl_lt (last (shift 1 macd_hist)) (last (shift 2 macd_hist)))"

text \<open>\<open>vol.rolling(30, min_periods=10).median()\<close> on a series without NaN.\<close>

definition median :: "real list \<Rightarrow> real" where
  "median xs =
     (let s = sort xs; n = length s
      in if odd n then s ! (n div 2) else (s ! (n div 2 - 1) + s ! (n div 2)) / 2)"

definition rolling_median :: "nat \<Rightarrow> nat \<Rightarrow> real list \<Rightarrow> fl list" where
  "rolling_median window min_periods xs =
     map (\<lambda>i. let win = drop (i + 1 - window) (take (i + 1) xs)
               in if min_periods \<le> length win then Fin (median win) else NaN)
       [0..<length xs]"

definition vol_med :: "bar list \<Rightarrow> fl" where
  "vol_med df = last (rolling_median 30 10 (map b_volume df))"

definition vol_ok :: "preset \<Rightarrow> bar list \<Rightarrow> bool" where
  "vol_ok cfg df =
     (case vol_med df of
        Fin m \<Rightarrow> b_volume (last df) \<ge> vol_multiplier cfg * m
      | _ \<Rightarrow> False)"

text \<open>\<open>df.loc[mask, column]\<close>: the values of the rows the mask flags.\<close>

definition flagged :: "bool list \<Rightarrow> real list \<Rightarrow> real list" where
  "flagged msk xs = map snd (filter fst (zip msk xs))"

definition recent_swing_lows :: "bar list \<Rightarrow> real list" where
  "recent_swing_lows df =
     tail_df 6 (flagged (rolling_swing_lows (map b_low df) 3 3) (map b_low df))"

definition recent_swing_low :: "bar list \<Rightarrow> real" where
  "recent_swing_low df =
     (if recent_swing_lows df \<noteq> [] then last (recent_swing_lows df)
      else minimum (tail_df 12 (map b_low df)))"

definition recent_swing_highs :: "bar list \<Rightarrow> real list" where
  "recent_swing_highs df =
     tail_df 6 (flagged (rolling_swing_highs (map b_high df) 3 3) (map b_high df))"

definition recent_swing_high :: "bar list \<Rightarrow> real" where
  "recent_swing_high df =
     (if recent_swing_highs df \<noteq> [] then last (recent_swing_highs df)
      else maximum (tail_df 12 (map b_high df)))"

definition atr14 :: "bar list \<Rightarrow> fl list" where
  "atr14 df = atr df 14"

definition atr_last :: "bar list \<Rightarrow> real" where
  "atr_last df = (case last (atr14 df) of Fin a \<Rightarrow> a | _ \<Rightarrow> 0)"

definition buffer :: "bar list \<Rightarrow> real" where
  "buffer df = (if atr_last df \<noteq> 0 then 0.25 * atr_last df else 0)"

definition trend_long_ok :: "bar list \<Rightarrow> bool" where
  "trend_long_ok df =
     (b_close (last df) \<ge> last (ema (map b_close df) 20) \<and>
      last (ema (map b_close df) 20) \<ge> last (ema (map b_close df) 50))"

definition trend_short_ok :: "bar list \<Rightarrow> bool" where
  "trend_short_ok df =
     (b_close (last df) \<le> last (ema (map b_close df) 20) \<and>
      last (ema (map b_close df) 20) \<le> last (ema (map b_close df) 50))"

definition prior_swing_high :: "bar list \<Rightarrow> real" where
  "prior_swing_high df =
     (if recent_swing_highs df \<noteq> [] then last (recent_swing_highs df)
      else maximum (tail_df 30 (map b_high df)))"

definition prior_swing_low :: "bar list \<Rightarrow> real" where
  "prior_swing_low df =
     (if recent_swing_lows df \<noteq> [] then last (recent_swing_lows df)
      else minimum (tail_df 30 (map b_low df)))"

definition bull_sweep :: "bar list \<Rightarrow> bool" where
  "bull_sweep df =
     (b_low (last df) < prior_swing_low df \<and> b_close (last df) > prior_swing_low df)"

definition bear_sweep :: "bar list \<Rightarrow> bool" where
  "bear_sweep df =
     (b_high (last df) > prior_swing_high df \<and> b_close (last df) < prior_swing_high df)"

definition ob_retest :: "bar list \<Rightarrow> order_block option \<Rightarrow> bool" where
  "ob_retest df ob =
     (case ob of
        None \<Rightarrow> False
      | Some (zone_low, zone_high, _) \<Rightarrow>
          in_zone (b_close (last df)) zone_low zone_high (buffer df))"

definition displacement :: "bar list \<Rightarrow> bool" where
  "displacement df =
     (atr_last df \<noteq> 0 \<and> b_high (last df) - b_low (last df) \<ge> 1.5 * atr_last df)"

definition higher_low :: "bar list \<Rightarrow> bool" where
  "higher_low df =
     (last (tail_df 12 (map b_low df)) > minimum (tail_df 12 (map b_low df)))"

definition lower_high :: "bar list \<Rightarrow> bool" where
  "lower_high df =
     (last (tail_df 12 (map b_high df)) < maximum (tail_df 12 (map b_high df)))"

subsection \<open>The local state of compute_scalp_signal\<close>

text \<open>
  What the function holds once the window, the oscillators on the window's index and
  the two order blocks are computed.
\<close>

record frame =
  f_cfg :: preset
  f_pro :: bool
  f_df :: "bar list"
  f_rsi_fast :: "fl list"
  f_rsi_slow :: "fl list"
  f_macd_hist :: "fl list"
  f_ob_bull :: "order_block option"
  f_ob_bear :: "order_block option"

definition vwap_long :: "frame \<Rightarrow> bool" where
  "vwap_long F = (was_below_vwap (f_df F) \<and> reclaim_vwap (f_df F))"

definition vwap_short :: "frame \<Rightarrow> bool" where
  "vwap_short F = (was_above_vwap (f_df F) \<and> reject_vwap (f_df F))"

definition bull_ob_retest :: "frame \<Rightarrow> bool" where
  "bull_ob_retest F = ob_retest (f_df F) (f_ob_bull F)"

definition bear_ob_retest :: "frame \<Rightarrow> bool" where
  "bear_ob_retest F = ob_retest (f_df F) (f_ob_bear F)"

definition bull_fvg :: "frame \<Rightarrow> zone option" where
  "bull_fvg F = fst (detect_fvg (tail_df 60 (f_df F)))"

definition bear_fvg :: "frame \<Rightarrow> zone option" where
  "bear_fvg F = snd (detect_fvg (tail_df 60 (f_df F)))"

definition make_extras :: "frame \<Rightarrow> (string \<times> extra) list" where
  "make_extras F =
     (let df = f_df F in
      [(''ema20'', XFloat (last (ema (map b_close df) 20))),
       (''ema50'', XFloat (last (ema (map b_close df) 50))),
       (''trend_long_ok'', XBool (trend_long_ok df)),
       (''trend_short_ok'', XBool (trend_short_ok df)),
       (''prior_swing_high'', XFloat (prior_swing_high df)),
       (''prior_swing_low'', XFloat (prior_swing_low df)),
       (''bull_liquidity_sweep'', XBool (bull_sweep df)),
       (''bear_liquidity_sweep'', XBool (bear_sweep df)),
       (''bull_fvg'', XZone (bull_fvg F)),
       (''bear_fvg'', XZone (bear_fvg F)),
       (''bull_ob'', XOrderBlock (f_ob_bull F)),
       (''bear_ob'', XOrderBlock (f_ob_bear F)),
       (''bull_ob_retest'', XBool (bull_ob_retest F)),
       (''bear_ob_retest'', XBool (bear_ob_retest F)),
       (''displacement'', XBool (displacement df)),
       (''atr14'', XFloat (atr_last df))])"

subsection \<open>Scoring\<close>

record scores =
  long_points :: int
  long_reasons :: "string list"
  short_points :: int
  short_reasons :: "string list"

definition add_long :: "bool \<Rightarrow> int \<Rightarrow> string \<Rightarrow> scores \<Rightarrow> scores" where
  "add_long c n r s =
     (if c then s\<lparr>long_points := long_points s + n, long_reasons := long_reasons s @ [r]\<rparr>
      else s)"

definition add_short :: "bool \<Rightarrow> int \<Rightarrow> string \<Rightarrow> scores \<Rightarrow> scores" where
  "add_short c n r s =
     (if c then s\<lparr>short_points := short_points s + n, short_reasons := short_reasons s @ [r]\<rparr>
      else s)"

definition add_both :: "bool \<Rightarrow> int \<Rightarrow> scores \<Rightarrow> scores" where
  "add_both c n s =
     (if c then s\<lparr>long_points := long_points s + n, short_points := short_points s + n\<rparr>
      else s)"

definition penalty_long :: "bool \<Rightarrow> scores \<Rightarrow> scores" where
  "penalty_long c s = (if c then s\<lparr>long_points := max 0 (long_points s - 15)\<rparr> else s)"

definition penalty_short :: "bool \<Rightarrow> scores \<Rightarrow> scores" where
  "penalty_short c s = (if c then s\<lparr>short_points := max 0 (short_points s - 15)\<rparr> else s)"

text \<open>The statements of the scoring block, in the order of the source.\<close>

definition basic_steps :: "frame \<Rightarrow> (scores \<Rightarrow> scores) list" where
  "basic_steps F =
     (let df = f_df F in
      [add_long (vwap_long F) 35 ''VWAP reclaim'',
       add_long (rsi_snap (f_rsi_fast F) \<and> fl_lt (last (f_rsi_slow F)) (Fin 60)) 20
         ''RSI-5 snapback (RSI-14 ok)'',
       add_long (macd_turn_up (f_macd_hist F)) 20 ''MACD hist turning up'',
       add_long (vol_ok (f_cfg F) df) 15 ''Volume confirmation'',
       add_long (higher_low df) 10 ''Higher-low micro structure'',
       add_short (vwap_short F) 35 ''VWAP rejection'',
       add_short (rsi_downshift (f_rsi_fast F) \<and> fl_gt (last (f_rsi_slow F)) (Fin 40)) 20
         ''RSI-5 downshift (RSI-14 ok)'',
       add_short (macd_turn_down (f_macd_hist F)) 20 ''MACD hist turning down'',
       add_short (vol_ok (f_cfg F) df) 15 ''Volume confirmation'',
       add_short (lower_high df) 10 ''Lower-high micro structure''])"

definition pro_steps :: "frame \<Rightarrow> (scores \<Rightarrow> scores) list" where
  "pro_steps F =
     (let df = f_df F in
      [add_long (bull_sweep df) 20 ''Liquidity sweep (low)'',
       add_short (bear_sweep df) 20 ''Liquidity sweep (high)'',
       add_long (bull_ob_retest F) 15 ''Bullish order block retest'',
       add_short (bear_ob_retest F) 15 ''Bearish order block retest'',
       add_long (bull_fvg F \<noteq> None) 10 ''Bullish FVG present'',
       add_short (bear_fvg F \<noteq> None) 10 ''Bearish FVG present'',
       add_both (displacement df) 5,
       penalty_long (\<not> trend_long_ok df \<and> \<not> vwap_long F),
       penalty_short (\<not> trend_short_ok df \<and> \<not> vwap_short F)])"

definition run_steps :: "(scores \<Rightarrow> scores) list \<Rightarrow> scores \<Rightarrow> scores" where
  "run_steps steps s = foldl (\<lambda>acc f. f acc) s steps"

definition scoring :: "frame \<Rightarrow> scores" where
  "scoring F =
     run_steps (if f_pro F then pro_steps F else [])
       (run_steps (basic_steps F)
          \<lparr>long_points = 0, long_reasons = [], short_points = 0, short_reasons = []\<rparr>)"

subsection \<open>Requirements and decision\<close>

text \<open>The reason of the first requirement that is enabled and not met, if any.\<close>

definition gate_failure :: "frame \<Rightarrow> string option" where
  "gate_failure F =
     (let cfg = f_cfg F; df = f_df F in
      if require_vwap_event cfg = 1 \<and> \<not> (vwap_long F \<or> vwap_short F)
        then Some ''No VWAP reclaim/rejection event''
      else if require_rsi_event cfg = 1 \<and>
              \<not> (rsi_snap (f_rsi_fast F) \<or> rsi_downshift (f_rsi_fast F))
        then Some ''No RSI-5 snap/downshift event''
      else if require_macd_turn cfg = 1 \<and>
              \<not> (macd_turn_up (f_macd_hist F) \<or> macd_turn_down (f_macd_hist F))
        then Some ''No MACD histogram turn event''
      else if require_volume cfg = 1 \<and> \<not> vol_ok cfg df
        then Some ''No volume confirmation''
      else if f_pro F \<and>
              \<not> (bull_sweep df \<or> bear_sweep df \<or> bull_ob_retest F \<or> bear_ob_retest F)
        then Some ''Pro mode: no liquidity sweep / OB retest trigger''
      else None)"

definition neutral_reason :: "scores \<Rightarrow> string" where
  "neutral_reason s =
     ''LongScore='' @ str_int (long_points s) @ '' ('' @ str_join '', '' (long_reasons s) @
     ''); ShortScore='' @ str_int (short_points s) @ '' ('' @
     str_join '', '' (short_reasons s) @ '')''"

definition decide :: "string \<Rightarrow> string \<Rightarrow> frame \<Rightarrow> SignalResult" where
  "decide sy sess F =
     (let df = f_df F; s = scoring F;
          last_px = b_close (last df); last_ts = b_ts (last df);
          neutral = (\<lambda>why.
            \<lparr>symbol = sy, bias = ''NEUTRAL'',
             setup_score = max (long_points s) (short_points s), reason = why,
             entry = None, stop = None, target_1r = None, target_2r = None,
             last_price = Some last_px, timestamp = Some last_ts, session = sess,
             extras = make_extras F\<rparr>)
      in case gate_failure F of
           Some why \<Rightarrow> neutral why
         | None \<Rightarrow>
            (let min_score = min_actionable_score (f_cfg F) in
             if long_points s \<ge> min_score \<and> long_points s > short_points s then
               (let ent = last_px;
                    stp = min (recent_swing_low df) (last_px - max (atr_last df) 0 * 0.8);
                    risk = max (ent - stp) 0.01
                in \<lparr>symbol = sy, bias = ''LONG'', setup_score = min 100 (long_points s),
                    reason = str_join '', '' (take 6 (long_reasons s)),
                    entry = Some ent, stop = Some stp, target_1r = Some (ent + risk),
                    target_2r = Some (ent + 2 * risk),
                    last_price = Some last_px, timestamp = Some last_ts, session = sess,
                    extras = make_extras F\<rparr>)
             else if short_points s \<ge> min_score \<and> short_points s > long_points s then
               (let ent = last_px;
                    stp = max (recent_swing_high df) (last_px + max (atr_last df) 0 * 0.8);
                    risk = max (stp - ent) 0.01
                in \<lparr>symbol = sy, bias = ''SHORT'', setup_score = min 100 (short_points s),
                    reason = str_join '', '' (take 6 (short_reasons s)),
                    entry = Some ent, stop = Some stp, target_1r = Some (ent - risk),
                    target_2r = Some (ent - 2 * risk),
                    last_price = Some last_px, timestamp = Some last_ts, session = sess,
                    extras = make_extras F\<rparr>)
             else neutral (neutral_reason s)))"

text \<open>
  The two directional branches (signals.py, lines 242 to 252) with every float
  operation rounded: entry, stop, target_1r and target_2r as binary64 computes them
  from the close of the final bar, the swing reference and the ATR value. The literals
  \<open>0.8\<close> and \<open>0.01\<close> are the binary64 numbers nearest to them, \<open>min\<close> and \<open>max\<close> do not
  round, and \<open>2 * risk\<close> multiplies by the float 2.
\<close>

definition long_levels_f64 :: "real \<Rightarrow> real \<Rightarrow> real \<Rightarrow> real \<times> real \<times> real \<times> real" where
  "long_levels_f64 last_px swing_low atr_l =
     (let ent = last_px;
          stp = min swing_low (rnd (last_px - rnd (max atr_l 0 * rnd 0.8)));
          risk = max (rnd (ent - stp)) (rnd 0.01)
      in (ent, stp, rnd (ent + risk), rnd (ent + rnd (2 * risk))))"


subsection \<open>compute_scalp_signal\<close>

text \<open>The three oscillators on the window's index: \<open>reindex(df.index).ffill()\<close>.\<close>

definition oscillators ::
  "bar list \<Rightarrow> series \<Rightarrow> series \<Rightarrow> series \<Rightarrow> error + fl list \<times> fl list \<times> fl list"
where
  "oscillators df rsi_fast rsi_slow macd_hist =
     (case reindex rsi_fast (map b_ts df) of
        Inl e \<Rightarrow> Inl e
      | Inr rf \<Rightarrow>
         (case reindex rsi_slow (map b_ts df) of
            Inl e \<Rightarrow> Inl e
          | Inr rs \<Rightarrow>
             (case reindex macd_hist (map b_ts df) of
                Inl e \<Rightarrow> Inl e
              | Inr mh \<Rightarrow> Inr (ffill rf, ffill rs, ffill mh))))"

text \<open>The two calls of \<open>find_order_block(df, atr14, side, lookback=35)\<close>.\<close>

definition order_blocks :: "bar list \<Rightarrow> error + order_block option \<times> order_block option" where
  "order_blocks df =
     (case find_order_block df (zip (map b_ts df) (atr14 df)) ''bull'' 35 of
        Inl e \<Rightarrow> Inl e
      | Inr ob_bull \<Rightarrow>
         (case find_order_block df (zip (map b_ts df) (atr14 df)) ''bear'' 35 of
            Inl e \<Rightarrow> Inl e
          | Inr ob_bear \<Rightarrow> Inr (ob_bull, ob_bear)))"

definition mk_frame ::
  "preset \<Rightarrow> bool \<Rightarrow> bar list \<Rightarrow> fl list \<times> fl list \<times> fl list \<Rightarrow>
   order_block option \<times> order_block option \<Rightarrow> frame"
where
  "mk_frame cfg pro_mode df osc obs =
     \<lparr>f_cfg = cfg, f_pro = pro_mode, f_df = df,
      f_rsi_fast = fst osc, f_rsi_slow = fst (snd osc), f_macd_hist = snd (snd osc),
      f_ob_bull = fst obs, f_ob_bear = snd obs\<rparr>"

definition session_allowed :: "string \<Rightarrow> bool \<Rightarrow> bool \<Rightarrow> bool \<Rightarrow> bool" where
  "session_allowed sess allow_opening allow_midday allow_power =
     ((sess = ''OPENING'' \<and> allow_opening) \<or> (sess = ''MIDDAY'' \<and> allow_midday) \<or>
      (sess = ''POWER'' \<and> allow_power))"

text \<open>
  \<open>classify_session\<close> is imported from a module that is not part of the sources at hand;
  it is a parameter here, a function from the final bar's timestamp to a label. The
  function fails with IndexError when the window \<open>ohlcv.tail(lookback_bars)\<close> is empty
  (at \<open>df.index[-1]\<close>) and with ValueError when a reindex does.
\<close>

definition compute_scalp_signal ::
  "(timestamp \<Rightarrow> string) \<Rightarrow> string \<Rightarrow> bar list \<Rightarrow> series \<Rightarrow> series \<Rightarrow> series \<Rightarrow>
   string \<Rightarrow> bool \<Rightarrow> bool \<Rightarrow> bool \<Rightarrow> bool \<Rightarrow> int \<Rightarrow> error + SignalResult"
where
  "compute_scalp_signal classify_session sy ohlcv rsi_fast rsi_slow macd_hist
       mode pro_mode allow_opening allow_midday allow_power lookback_bars =
     (if length ohlcv < 60 then
        Inr \<lparr>symbol = sy, bias = ''NEUTRAL'', setup_score = 0, reason = ''Not enough data'',
             entry = None, stop = None, target_1r = None, target_2r = None,
             last_price = None, timestamp = None, session = ''OFF'', extras = []\<rparr>
      else
        (let cfg = PRESETS_get mode; df = tail_df lookback_bars ohlcv in
         case oscillators df rsi_fast rsi_slow macd_hist of
           Inl e \<Rightarrow> Inl e
         | Inr osc \<Rightarrow>
            if df = [] then Inl IndexError
            else
              (let last_ts = b_ts (last df); sess = classify_session last_ts;
                   last_px = b_close (last df)
               in if \<not> session_allowed sess allow_opening allow_midday allow_power then
                    Inr \<lparr>symbol = sy, bias = ''NEUTRAL'', setup_score = 0,
                         reason = ''Filtered by time-of-day ('' @ sess @ '')'',
                         entry = None, stop = None, target_1r = None, target_2r = None,
                         last_price = Some last_px, timestamp = Some last_ts,
                         session = sess, extras = []\<rparr>
                  else
                    (case order_blocks df of
                       Inl e \<Rightarrow> Inl e
                     | Inr obs \<Rightarrow> Inr (decide sy sess (mk_frame cfg pro_mode df osc obs))))))"

section \<open>Example inputs\<close>

text \<open>
  Sixty one-minute bars: fifty-four quiet bars around 100, a five-bar dip below the
  VWAP, and a final bar that closes back above it on high volume. The oscillators are
  sparser than the bars: the fast RSI rises from 24 to 31 on the final bar and the MACD
  histogram rises twice.
\<close>

definition mkbar :: "timestamp \<Rightarrow> real \<Rightarrow> real \<Rightarrow> real \<Rightarrow> real \<Rightarrow> real \<Rightarrow> bar" where
  "mkbar t opn hi lo cl v =
     \<lparr>b_ts = t, b_open = opn, b_high = hi, b_low = lo, b_close = cl, b_volume = v\<rparr>"

definition quiet_bar :: "nat \<Rightarrow> bar" where
  "quiet_bar t = mkbar (int t) 100 100.2 99.8 100 1000"

definition ex_tail :: "bar list" where
  "ex_tail =
     [mkbar 54 100 100.1 98.5 98.8 1200,
      mkbar 55 98.8 99.0 98.0 98.6 1100,
      mkbar 56 98.6 98.9 98.5 98.55 900,
      mkbar 57 98.55 98.9 98.5 98.8 800,
      mkbar 58 98.8 98.95 98.6 98.9 900,
      mkbar 59 99.0 101.5 99.0 101.0 2500]"

definition ex_bars :: "bar list" where
  "ex_bars = map quiet_bar [0..<54] @ ex_tail"

definition ex_rsi_fast :: series where
  "ex_rsi_fast = [(57, Fin 22), (58, Fin 24), (59, Fin 31)]"

definition ex_rsi_slow :: series where
  "ex_rsi_slow = [(57, Fin 40), (58, Fin 41), (59, Fin 45)]"

definition ex_macd_hist :: series where
  "ex_macd_hist = [(57, Fin (- 0.3)), (58, Fin (- 0.2)), (59, Fin (- 0.05))]"

text \<open>
  The oscillators on the index of the sixty bars, and the local state of
  \<open>compute_scalp_signal\<close> on them under the preset \<open>Cleaner signals\<close>.
\<close>

definition ex_osc :: "fl list \<times> fl list \<times> fl list" where
  "ex_osc =
     (replicate 57 NaN @ [Fin 22, Fin 24, Fin 31],
      replicate 57 NaN @ [Fin 40, Fin 41, Fin 45],
      replicate 57 NaN @ [Fin (- 0.3), Fin (- 0.2), Fin (- 0.05)])"

definition ex_frame :: "bool \<Rightarrow> frame" where
  "ex_frame pro_mode =
     mk_frame cleaner_signals pro_mode ex_bars ex_osc (Some (98.5, 98.6, 56), None)"

text \<open>The result on the example in basic mode, with the default lookback.\<close>

definition ex_long_signal :: SignalResult where
  "ex_long_signal =
     \<lparr>symbol = ''ABC'', bias = ''LONG'', setup_score = 100,
      reason = ''VWAP reclaim, RSI-5 snapback (RSI-14 ok), MACD hist turning up, Volume confirmation, Higher-low micro structure'',
      entry = Some 101, stop = Some 98, target_1r = Some 104, target_2r = Some 107,
      last_price = Some 101, timestamp = Some 59, session = ''OPENING'',
      extras = make_extras (ex_frame False)\<rparr>"





text \<open>Ten bars with one down candle, bar 6, and a close above its high three bars on.\<close>

definition ob_bars :: "bar list" where
  "ob_bars =
     [mkbar 0 10 10.5 9.5 10 100, mkbar 1 10 10.5 9.5 10 100, mkbar 2 10 10.5 9.5 10 100,
      mkbar 3 10 10.5 9.5 10 100, mkbar 4 10 10.5 9.5 10 100, mkbar 5 10 10.5 9.5 10 100,
      mkbar 6 10 10.2 8.8 9 100, mkbar 7 9 9.6 8.9 9.5 100, mkbar 8 9 9.6 8.9 9.5 100,
      mkbar 9 9.5 10.6 9.4 10.5 100]"

text \<open>An ATR series with one observation, carried forward over the window.\<close>

definition ob_atr_series :: series where
  "ob_atr_series = [(0, Fin 1)]"


section \<open>The readings that the properties are stated with\<close>

text \<open>
  What the search of \<open>find_order_block\<close> accepts at position \<open>i\<close> of the window: three
  bars follow it, its ATR value is finite and not zero, the candle has the opposite
  colour, and one of the next three closes is beyond the candle's extreme and more than
  the ATR value away from the candle's close.
\<close>

definition ob_candidate :: "bar list \<Rightarrow> fl list \<Rightarrow> string \<Rightarrow> nat \<Rightarrow> bool" where
  "ob_candidate w atv side i =
     (i + 3 < length w \<and>
      (case atv ! i of
         Fin a \<Rightarrow>
           a \<noteq> 0 \<and>
           (if side = ''bull'' then
              b_close (w ! i) < b_open (w ! i) \<and>
              (\<exists>j\<in>{i + 1, i + 2, i + 3}.
                 b_high (w ! i) < b_close (w ! j) \<and> a < b_close (w ! j) - b_close (w ! i))
            else
              b_open (w ! i) < b_close (w ! i) \<and>
              (\<exists>j\<in>{i + 1, i + 2, i + 3}.
                 b_close (w ! j) < b_low (w ! i) \<and> a < b_close (w ! i) - b_close (w ! j)))
       | _ \<Rightarrow> False))"





section \<open>Properties of compute_scalp_signal: the early returns\<close>

lemma last_tail_df: "tail_df n xs \<noteq> [] \<Longrightarrow> last (tail_df n xs) = last xs"
  by (auto simp: tail_df_def split: if_splits)

lemma length_ex_bars: "length ex_bars = 60"
  by (simp add: ex_bars_def ex_tail_def)

lemma last_ex_bars: "last ex_bars = mkbar 59 99.0 101.5 99.0 101.0 2500"
  by (simp add: ex_bars_def ex_tail_def)

lemma reindex_distinct:
  "distinct (map fst s) \<Longrightarrow> \<exists>vs. reindex s idx = Inr vs"
  by (simp add: reindex_def)

lemma oscillators_distinct:
  assumes "distinct (map fst a)" and "distinct (map fst b)" and "distinct (map fst c)"
  shows "\<exists>osc. oscillators df a b c = Inr osc"
proof -
  obtain va where va: "reindex a (map b_ts df) = Inr va"
    using reindex_distinct [OF assms(1)] by blast
  obtain vb where vb: "reindex b (map b_ts df) = Inr vb"
    using reindex_distinct [OF assms(2)] by blast
  obtain vc where vc: "reindex c (map b_ts df) = Inr vc"
    using reindex_distinct [OF assms(3)] by blast
  show ?thesis
    by (simp add: oscillators_def va vb vc)
qed

lemma ex_oscillators_ok:
  "\<exists>osc. oscillators df ex_rsi_fast ex_rsi_slow ex_macd_hist = Inr osc"
  by (rule oscillators_distinct) (simp_all add: ex_rsi_fast_def ex_rsi_slow_def ex_macd_hist_def)

text \<open>
  C5 (as amended). A series of fewer than 60 bars gives NEUTRAL with score 0, no price
  level, no last price and no timestamp, whatever the other arguments are; the reason
  text is \<open>Not enough data\<close> and the session label is \<open>OFF\<close>.
\<close>

theorem insufficient_data_result:
  "length ohlcv < 60 \<Longrightarrow>
   compute_scalp_signal cs sy ohlcv rf rs mh mode pro ao am ap lb =
     Inr \<lparr>symbol = sy, bias = ''NEUTRAL'', setup_score = 0, reason = ''Not enough data'',
          entry = None, stop = None, target_1r = None, target_2r = None,
          last_price = None, timestamp = None, session = ''OFF'', extras = []\<rparr>"
  by (simp add: compute_scalp_signal_def)

theorem insufficient_data_result_witness:
  "length ex_tail < 60 \<and>
   compute_scalp_signal (\<lambda>t. ''OPENING'') ''ABC'' ex_tail ex_rsi_fast ex_rsi_slow ex_macd_hist
       ''Fast scalp'' True True False True 180 =
     Inr \<lparr>symbol = ''ABC'', bias = ''NEUTRAL'', setup_score = 0, reason = ''Not enough data'',
          entry = None, stop = None, target_1r = None, target_2r = None,
          last_price = None, timestamp = None, session = ''OFF'', extras = []\<rparr>"
proof -
  have short: "length ex_tail < 60"
    by (simp add: ex_tail_def)
  show ?thesis
    using short insufficient_data_result [OF short] by simp
qed

text \<open>
  The reason text the claim C5 quotes, \<open>insufficient data\<close>, is not the one returned.
\<close>

theorem insufficient_data_reason_counterexample:
  "(case compute_scalp_signal (\<lambda>t. ''OPENING'') ''ABC'' ex_tail ex_rsi_fast ex_rsi_slow
           ex_macd_hist ''Cleaner signals'' False True False True 180 of
      Inl e \<Rightarrow> False
    | Inr r \<Rightarrow> reason r = ''Not enough data'' \<and> reason r \<noteq> ''insufficient data'')"
  by (simp add: compute_scalp_signal_def ex_tail_def)

text \<open>
  C10. A mode that is not a key of the preset table does not make the lookup fail: the
  configuration is that of \<open>Cleaner signals\<close>, and the whole call gives what the call with
  that mode gives.
\<close>

theorem unknown_mode_is_cleaner_signals:
  "mode \<notin> set (map fst PRESETS) \<Longrightarrow>
   PRESETS_get mode = cleaner_signals \<and>
   compute_scalp_signal cs sy ohlcv rf rs mh mode pro ao am ap lb =
   compute_scalp_signal cs sy ohlcv rf rs mh ''Cleaner signals'' pro ao am ap lb"
proof -
  assume m: "mode \<notin> set (map fst PRESETS)"
  then have "map_of PRESETS mode = None"
    by (simp add: map_of_eq_None_iff)
  then have g: "PRESETS_get mode = cleaner_signals"
    by (simp add: PRESETS_get_def)
  have c: "PRESETS_get ''Cleaner signals'' = cleaner_signals"
    by (simp add: PRESETS_get_def PRESETS_def)
  show ?thesis
    using g c by (simp add: compute_scalp_signal_def)
qed

theorem unknown_mode_is_cleaner_signals_witness:
  "''Swing'' \<notin> set (map fst PRESETS) \<and>
   PRESETS_get ''Swing'' = cleaner_signals \<and>
   compute_scalp_signal (\<lambda>t. ''OPENING'') ''ABC'' ex_bars ex_rsi_fast ex_rsi_slow ex_macd_hist
       ''Swing'' False True False True 180 =
   compute_scalp_signal (\<lambda>t. ''OPENING'') ''ABC'' ex_bars ex_rsi_fast ex_rsi_slow ex_macd_hist
       ''Cleaner signals'' False True False True 180"
proof -
  have k: "''Swing'' \<notin> set (map fst PRESETS)"
    by (simp add: PRESETS_def)
  show ?thesis
    using k unknown_mode_is_cleaner_signals [OF k] by simp
qed

text \<open>
  C9. With at least 60 bars, a window that is not empty and oscillators that reindex,
  a final bar that the session classifier labels \<open>OFF\<close> gives NEUTRAL with score 0, the
  time-of-day reason, the last price and the timestamp of the final bar, and no price
  level, for every setting of the three allow flags.
\<close>

theorem off_session_filtered:
  assumes "60 \<le> length ohlcv"
    and "tail_df lb ohlcv \<noteq> []"
    and "oscillators (tail_df lb ohlcv) rf rs mh = Inr osc"
    and "cs (b_ts (last ohlcv)) = ''OFF''"
  shows "compute_scalp_signal cs sy ohlcv rf rs mh mode pro ao am ap lb =
     Inr \<lparr>symbol = sy, bias = ''NEUTRAL'', setup_score = 0,
          reason = ''Filtered by time-of-day (OFF)'',
          entry = None, stop = None, target_1r = None, target_2r = None,
          last_price = Some (b_close (last ohlcv)), timestamp = Some (b_ts (last ohlcv)),
          session = ''OFF'', extras = []\<rparr>"
  using assms
  by (simp add: compute_scalp_signal_def Let_def last_tail_df session_allowed_def)

theorem off_session_filtered_witness:
  "compute_scalp_signal (\<lambda>t. ''OFF'') ''ABC'' ex_bars ex_rsi_fast ex_rsi_slow ex_macd_hist
       ''Cleaner signals'' False True True True 180 =
     Inr \<lparr>symbol = ''ABC'', bias = ''NEUTRAL'', setup_score = 0,
          reason = ''Filtered by time-of-day (OFF)'',
          entry = None, stop = None, target_1r = None, target_2r = None,
          last_price = Some 101, timestamp = Some 59,
          session = ''OFF'', extras = []\<rparr>"
proof -
  have len: "60 \<le> length ex_bars"
    by (simp add: length_ex_bars)
  have win: "tail_df 180 ex_bars \<noteq> []"
    by (simp add: tail_df_def ex_bars_def ex_tail_def)
  obtain osc where osc:
    "oscillators (tail_df 180 ex_bars) ex_rsi_fast ex_rsi_slow ex_macd_hist = Inr osc"
    using ex_oscillators_ok by blast
  have off: "(\<lambda>t. ''OFF'') (b_ts (last ex_bars)) = ''OFF''"
    by simp
  show ?thesis
    using off_session_filtered [OF len win osc off, of "''ABC''" "''Cleaner signals''" False True True True]
    by (simp add: last_ex_bars mkbar_def)
qed

section \<open>Properties of find_order_block\<close>

lemma next_three: "i + 3 < n \<Longrightarrow> set [i + 1..<min (i + 4) n] = {i + 1, i + 2, i + 3}"
proof -
  assume "i + 3 < n"
  then have "min (i + 4) n = i + 4" by simp
  moreover have "{i + 1..<i + 4} = {i + 1, i + 2, i + 3}" by auto
  ultimately show ?thesis by simp
qed

lemma displaced_up_iff:
  "i + 3 < length w \<Longrightarrow>
   displaced_up w a i \<longleftrightarrow>
     (\<exists>j\<in>{i + 1, i + 2, i + 3}. b_high (w ! i) < b_close (w ! j) \<and> a < b_close (w ! j) - b_close (w ! i))"
  by (simp only: displaced_up_def list_ex_iff next_three) simp

lemma displaced_down_iff:
  "i + 3 < length w \<Longrightarrow>
   displaced_down w a i \<longleftrightarrow>
     (\<exists>j\<in>{i + 1, i + 2, i + 3}. b_close (w ! j) < b_low (w ! i) \<and> a < b_close (w ! i) - b_close (w ! j))"
  by (simp only: displaced_down_def list_ex_iff next_three) simp

lemma usable_atr_Some: "usable_atr v = Some a \<longleftrightarrow> v = Fin a \<and> a \<noteq> 0"
  by (cases v) auto

lemma usable_atr_None: "usable_atr v = None \<longleftrightarrow> (\<forall>a. v = Fin a \<longrightarrow> a = 0)"
  by (cases v) auto

lemma bull_step_iff:
  assumes "i + 3 < length w"
  shows "ob_candidate w atv ''bull'' i \<longleftrightarrow>
     b_close (w ! i) < b_open (w ! i) \<and>
     (\<exists>a. usable_atr (atv ! i) = Some a \<and> displaced_up w a i)"
  using assms
  by (cases "atv ! i") (auto simp: ob_candidate_def displaced_up_iff)

lemma bear_step_iff:
  assumes "i + 3 < length w" and "side \<noteq> ''bull''"
  shows "ob_candidate w atv side i \<longleftrightarrow>
     b_close (w ! i) > b_open (w ! i) \<and>
     (\<exists>a. usable_atr (atv ! i) = Some a \<and> displaced_down w a i)"
  using assms
  by (cases "atv ! i") (auto simp: ob_candidate_def displaced_down_iff)

lemma scan_bull_Some:
  "scan_bull w atv k = Some i \<Longrightarrow> k + 3 \<le> length w \<Longrightarrow>
   i < k \<and> ob_candidate w atv ''bull'' i \<and>
   (\<forall>m. i < m \<and> m < k \<longrightarrow> \<not> ob_candidate w atv ''bull'' m)"
proof (induction k)
  case 0
  then show ?case by simp
next
  case (Suc k)
  have k3: "k + 3 < length w" using Suc.prems(2) by simp
  show ?case
  proof (cases "ob_candidate w atv ''bull'' k")
    case True
    then have "scan_bull w atv (Suc k) = Some k"
      using bull_step_iff [OF k3, of atv] by auto
    with Suc.prems(1) True show ?thesis by auto
  next
    case False
    then have "scan_bull w atv (Suc k) = scan_bull w atv k"
      using bull_step_iff [OF k3, of atv] by (auto split: option.splits)
    with Suc.prems(1) have "scan_bull w atv k = Some i" by simp
    with Suc.IH k3 have ih: "i < k \<and> ob_candidate w atv ''bull'' i \<and>
        (\<forall>m. i < m \<and> m < k \<longrightarrow> \<not> ob_candidate w atv ''bull'' m)" by simp
    show ?thesis
    proof (intro conjI allI impI)
      show "i < Suc k" using ih by simp
      show "ob_candidate w atv ''bull'' i" using ih by simp
      fix m assume "i < m \<and> m < Suc k"
      then show "\<not> ob_candidate w atv ''bull'' m"
        using ih False by (cases "m = k") auto
    qed
  qed
qed

lemma scan_bear_Some:
  assumes "side \<noteq> ''bull''"
  shows "scan_bear w atv k = Some i \<Longrightarrow> k + 3 \<le> length w \<Longrightarrow>
   i < k \<and> ob_candidate w atv side i \<and>
   (\<forall>m. i < m \<and> m < k \<longrightarrow> \<not> ob_candidate w atv side m)"
proof (induction k)
  case 0
  then show ?case by simp
next
  case (Suc k)
  have k3: "k + 3 < length w" using Suc.prems(2) by simp
  show ?case
  proof (cases "ob_candidate w atv side k")
    case True
    then have "scan_bear w atv (Suc k) = Some k"
      using bear_step_iff [OF k3 assms, of atv] by auto
    with Suc.prems(1) True show ?thesis by auto
  next
    case False
    then have "scan_bear w atv (Suc k) = scan_bear w atv k"
      using bear_step_iff [OF k3 assms, of atv] by (auto split: option.splits)
    with Suc.prems(1) have "scan_bear w atv k = Some i" by simp
    with Suc.IH k3 have ih: "i < k \<and> ob_candidate w atv side i \<and>
        (\<forall>m. i < m \<and> m < k \<longrightarrow> \<not> ob_candidate w atv side m)" by simp
    show ?thesis
    proof (intro conjI allI impI)
      show "i < Suc k" using ih by simp
      show "ob_candidate w atv side i" using ih by simp
      fix m assume "i < m \<and> m < Suc k"
      then show "\<not> ob_candidate w atv side m"
        using ih False by (cases "m = k") auto
    qed
  qed
qed

lemma scan_zero: "scan_bull w atv 0 = None" "scan_bear w atv 0 = None"
  by simp_all

lemma ob_index_Some:
  assumes "ob_index w atv side = Some i"
  shows "ob_candidate w atv side i \<and> (\<forall>m. i < m \<longrightarrow> \<not> ob_candidate w atv side m)"
proof -
  have pos: "length w - 3 \<noteq> 0"
    using assms by (auto simp: ob_index_def split: if_splits)
  then have le: "(length w - 3) + 3 \<le> length w" by simp
  have main: "i < length w - 3 \<and> ob_candidate w atv side i \<and>
      (\<forall>m. i < m \<and> m < length w - 3 \<longrightarrow> \<not> ob_candidate w atv side m)"
  proof (cases "side = ''bull''")
    case True
    then show ?thesis
      using assms scan_bull_Some [OF _ le, of atv i] by (simp add: ob_index_def)
  next
    case False
    then show ?thesis
      using assms scan_bear_Some [OF False _ le, of atv i] by (simp add: ob_index_def)
  qed
  have beyond: "\<not> ob_candidate w atv side m" if "\<not> m < length w - 3" for m
    using that by (auto simp: ob_candidate_def)
  show ?thesis
    using main beyond by blast
qed

lemma find_order_block_Some:
  assumes "find_order_block df atr_series side lookback = Inr (Some z)"
  shows "\<exists>atv i. ob_atr df atr_series lookback = Inr atv \<and>
           ob_index (ob_window df lookback) atv side = Some i \<and>
           z = ob_zone (ob_window df lookback) side i"
  using assms
  by (auto simp: find_order_block_def Let_def split: if_splits sum.splits)


text \<open>
  C8. A zone that \<open>find_order_block\<close> returns comes from a position of the window whose
  ATR value, after the reindex onto the window and the forward fill, is finite and not
  zero; this holds for the bullish and the bearish search alike.
\<close>

theorem order_block_atr_usable:
  assumes "find_order_block df atr_series side lookback = Inr (Some z)"
  shows "\<exists>atv i. ob_atr df atr_series lookback = Inr atv \<and>
           ob_index (ob_window df lookback) atv side = Some i \<and>
           i < length (ob_window df lookback) \<and>
           z = ob_zone (ob_window df lookback) side i \<and>
           isfinite (atv ! i) \<and> atv ! i \<noteq> Fin 0"
proof -
  obtain atv i where a: "ob_atr df atr_series lookback = Inr atv"
    and i: "ob_index (ob_window df lookback) atv side = Some i"
    and z: "z = ob_zone (ob_window df lookback) side i"
    using find_order_block_Some [OF assms] by blast
  have c: "ob_candidate (ob_window df lookback) atv side i"
    using ob_index_Some [OF i] by simp
  then have "i < length (ob_window df lookback) \<and> isfinite (atv ! i) \<and> atv ! i \<noteq> Fin 0"
    by (cases "atv ! i") (auto simp: ob_candidate_def)
  with a i z show ?thesis by blast
qed

lemma ob_window_ex: "ob_window ob_bars 30 = ob_bars"
  by (simp add: ob_window_def tail_df_def ob_bars_def)

lemma ob_atr_ex: "ob_atr ob_bars ob_atr_series 30 = Inr (replicate 10 (Fin 1))"
  by (simp add: ob_atr_def ob_window_ex reindex_def ob_atr_series_def ffill_def)
     (simp add: ob_bars_def mkbar_def numeral_eq_Suc Let_def)

lemma find_ob_ex:
  "find_order_block ob_bars ob_atr_series ''bull'' 30 = Inr (Some (8.8, 10, 6))"
  by (simp add: find_order_block_def ob_atr_ex ob_window_ex ob_index_def)
     (simp add: ob_bars_def mkbar_def numeral_eq_Suc displaced_up_def ob_zone_def)




theorem order_block_atr_usable_witness:
  "find_order_block ob_bars ob_atr_series ''bull'' 30 = Inr (Some (8.8, 10, 6)) \<and>
   (\<exists>atv i. ob_atr ob_bars ob_atr_series 30 = Inr atv \<and>
      ob_index (ob_window ob_bars 30) atv ''bull'' = Some i \<and>
      i < length (ob_window ob_bars 30) \<and>
      (8.8, 10, 6) = ob_zone (ob_window ob_bars 30) ''bull'' i \<and>
      isfinite (atv ! i) \<and> atv ! i \<noteq> Fin 0)"
  using find_ob_ex order_block_atr_usable [OF find_ob_ex]
  by simp

section \<open>Properties of binary64 rounding\<close>

lemma round_half_even_error: "\<bar>of_int (round_half_even y) - y\<bar> \<le> 1 / 2"
  unfolding round_half_even_def Let_def by (auto; linarith)

lemma round_half_even_of_int [simp]: "round_half_even (of_int m) = m"
  by (simp add: round_half_even_def)

lemma binade_bounds:
  assumes "x \<noteq> 0"
  shows "2 powi binade x \<le> \<bar>x\<bar> \<and> \<bar>x\<bar> < 2 powi (binade x + 1)"
proof (cases "1 \<le> \<bar>x\<bar>")
  case True
  let ?m = "\<lfloor>\<bar>x\<bar>\<rfloor>"
  have m: "0 < ?m" using True by linarith
  have b1: "1 \<le> bitlen ?m" using m by (auto simp: bitlen_alt_def)
  from bitlen_bounds [OF m] have lo: "2 ^ nat (bitlen ?m - 1) \<le> ?m"
    and hi: "?m < 2 ^ nat (bitlen ?m)" by auto
  have "(2::real) ^ nat (bitlen ?m - 1) \<le> of_int ?m"
    using lo by (metis of_int_le_iff of_int_numeral of_int_power)
  moreover have fl: "of_int ?m \<le> \<bar>x\<bar>" "\<bar>x\<bar> < of_int ?m + 1" by linarith+
  ultimately have "(2::real) ^ nat (bitlen ?m - 1) \<le> \<bar>x\<bar>" by linarith
  then have l: "2 powi (bitlen ?m - 1) \<le> \<bar>x\<bar>"
    using b1 by (simp add: power_int_nonneg_exp)
  have "?m + 1 \<le> 2 ^ nat (bitlen ?m)" using hi by simp
  then have "of_int (?m + 1) \<le> (2::real) ^ nat (bitlen ?m)"
    by (metis of_int_le_iff of_int_numeral of_int_power)
  then have "of_int ?m + 1 \<le> (2::real) ^ nat (bitlen ?m)" by simp
  then have "\<bar>x\<bar> < (2::real) ^ nat (bitlen ?m)" using fl(2) by linarith
  then have h: "\<bar>x\<bar> < 2 powi (bitlen ?m - 1 + 1)"
    using b1 by (simp add: power_int_nonneg_exp)
  show ?thesis using True l h by (simp add: binade_def)
next
  case False
  let ?z = "1 / \<bar>x\<bar>"
  let ?n = "\<lceil>?z\<rceil> - 1"
  have x: "0 < \<bar>x\<bar>" "\<bar>x\<bar> < 1" using assms False by auto
  have z: "1 < ?z" using x by simp
  have n: "0 < ?n" using z by linarith
  have nz: "of_int ?n < ?z" "?z \<le> of_int ?n + 1" by linarith+
  have b1: "1 \<le> bitlen ?n" using n by (auto simp: bitlen_alt_def)
  from bitlen_bounds [OF n] have lo: "2 ^ nat (bitlen ?n - 1) \<le> ?n"
    and hi: "?n < 2 ^ nat (bitlen ?n)" by auto
  have lo': "(2::real) ^ nat (bitlen ?n - 1) \<le> of_int ?n"
    using lo by (metis of_int_le_iff of_int_numeral of_int_power)
  have "?n + 1 \<le> 2 ^ nat (bitlen ?n)" using hi by simp
  then have hi': "of_int ?n + 1 \<le> (2::real) ^ nat (bitlen ?n)"
    by (metis of_int_le_iff of_int_numeral of_int_power of_int_add of_int_1)
  have zu: "?z \<le> 2 ^ nat (bitlen ?n)" using nz hi' by linarith
  have zl: "2 ^ nat (bitlen ?n - 1) < ?z" using nz lo' by linarith
  have p: "2 powi (- bitlen ?n) = 1 / (2::real) ^ nat (bitlen ?n)"
    using b1 by (simp add: power_int_minus_divide power_int_nonneg_exp)
  have q: "2 powi (- bitlen ?n + 1) = 1 / (2::real) ^ nat (bitlen ?n - 1)"
  proof -
    have "- bitlen ?n + 1 = - (bitlen ?n - 1)" by simp
    then show ?thesis
      using b1 by (simp only: power_int_minus_divide) (simp add: power_int_nonneg_exp)
  qed
  have l: "2 powi (- bitlen ?n) \<le> \<bar>x\<bar>"
    unfolding p using zu x by (simp add: field_simps)
  have h: "\<bar>x\<bar> < 2 powi (- bitlen ?n + 1)"
    unfolding q using zl x by (simp add: field_simps)
  show ?thesis using False l h by (simp add: binade_def)
qed

lemma pow2_less_cancel: "(2::real) powi a < 2 powi b \<Longrightarrow> a < b"
proof (rule ccontr)
  assume l: "(2::real) powi a < 2 powi b" and "\<not> a < b"
  then have "b \<le> a" by simp
  then have "(2::real) powi b \<le> 2 powi a" by (intro power_int_increasing) auto
  with l show False by simp
qed

lemma binade_eq:
  assumes "2 powi k \<le> \<bar>x\<bar>" and "\<bar>x\<bar> < 2 powi (k + 1)"
  shows "binade x = k"
proof -
  have x: "x \<noteq> 0"
  proof
    assume "x = 0"
    then have "(2::real) powi k \<le> 0" using assms(1) by simp
    moreover have "0 < (2::real) powi k" by (simp add: zero_less_power_int)
    ultimately show False by simp
  qed
  from binade_bounds [OF x] have b: "2 powi binade x \<le> \<bar>x\<bar>" "\<bar>x\<bar> < 2 powi (binade x + 1)"
    by auto
  have "(2::real) powi binade x < 2 powi (k + 1)" using b(1) assms(2) by linarith
  then have 1: "binade x < k + 1" by (rule pow2_less_cancel)
  have "(2::real) powi k < 2 powi (binade x + 1)" using b(2) assms(1) by linarith
  then have 2: "k < binade x + 1" by (rule pow2_less_cancel)
  show ?thesis using 1 2 by simp
qed

lemma pow2_pos [simp]: "0 < (2::real) powi k"
  by (simp add: zero_less_power_int)

lemma pow2_split: "(2::real) powi (k - 52) * 2 ^ 52 = 2 powi k"
proof -
  have "(2::real) powi ((k - 52) + 52) = 2 powi (k - 52) * 2 powi 52"
    by (rule power_int_add) simp
  then show ?thesis by simp
qed

lemma pow2_half: "(2::real) powi (k - 52) / 2 = 2 powi (k - 53)"
proof -
  have "(2::real) powi ((k - 53) + 1) = 2 powi (k - 53) * 2 powi 1"
    by (rule power_int_add) simp
  then show ?thesis by simp
qed

lemma scaled_bounds:
  assumes "x \<noteq> 0"
  shows "2 ^ 52 \<le> \<bar>x / 2 powi (binade x - 52)\<bar> \<and> \<bar>x / 2 powi (binade x - 52)\<bar> < 2 ^ 53"
proof -
  let ?q = "(2::real) powi (binade x - 52)"
  from binade_bounds [OF assms]
  have b: "2 powi binade x \<le> \<bar>x\<bar>" "\<bar>x\<bar> < 2 powi (binade x + 1)" by auto
  have q: "0 < ?q" by simp
  have e: "2 powi binade x = ?q * 2 ^ 52" using pow2_split [of "binade x"] by simp
  have e1: "(2::real) powi (binade x + 1) = ?q * 2 ^ 53"
  proof -
    have "(2::real) powi (binade x + 1) = 2 powi binade x * 2 powi 1"
      by (rule power_int_add) simp
    then show ?thesis by (simp add: e)
  qed
  have a: "\<bar>x / ?q\<bar> = \<bar>x\<bar> / ?q" using q by simp
  have "2 ^ 52 \<le> \<bar>x\<bar> / ?q"
    using b(1) q unfolding e by (simp add: pos_le_divide_eq mult.commute)
  moreover have "\<bar>x\<bar> / ?q < 2 ^ 53"
    using b(2) q unfolding e1 by (simp add: pos_divide_less_eq mult.commute)
  ultimately show ?thesis unfolding a by simp
qed

lemma rnd_error: "\<bar>rnd x - x\<bar> \<le> \<bar>x\<bar> / 2 ^ 53"
proof (cases "x = 0")
  case True
  then show ?thesis by (simp add: rnd_def)
next
  case False
  let ?q = "(2::real) powi (binade x - 52)"
  let ?y = "x / ?q"
  have q: "0 < ?q" by simp
  have "rnd x - x = (of_int (round_half_even ?y) - ?y) * ?q"
    using False q by (simp add: rnd_def algebra_simps)
  then have "\<bar>rnd x - x\<bar> = \<bar>of_int (round_half_even ?y) - ?y\<bar> * ?q"
    using q by (simp add: abs_mult)
  also have "\<dots> \<le> 1 / 2 * ?q"
    using round_half_even_error [of ?y] q by (intro mult_right_mono) auto
  also have "\<dots> = 2 powi (binade x - 53)"
    using pow2_half [of "binade x"] by simp
  also have "\<dots> = 2 powi binade x / 2 ^ 53"
  proof -
    have "(2::real) powi ((binade x - 53) + 53) = 2 powi (binade x - 53) * 2 powi 53"
      by (rule power_int_add) simp
    then show ?thesis by simp
  qed
  also have "\<dots> \<le> \<bar>x\<bar> / 2 ^ 53"
    using binade_bounds [OF False] by (simp add: divide_right_mono)
  finally show ?thesis .
qed




lemma rnd_zero [simp]: "rnd 0 = 0"
  by (simp add: rnd_def)

lemma rnd_eq_zero_iff: "rnd x = 0 \<longleftrightarrow> x = 0"
proof
  assume r: "rnd x = 0"
  have "\<bar>x\<bar> \<le> \<bar>x\<bar> / 2 ^ 53" using rnd_error [of x] r by simp
  then have "\<bar>x\<bar> * 2 ^ 53 \<le> \<bar>x\<bar>" by (simp add: field_simps)
  then show "x = 0" by (cases "x = 0") (auto simp: mult_le_cancel_left1)
qed simp

lemma rnd_eval:
  assumes "2 powi k \<le> \<bar>x\<bar>" and "\<bar>x\<bar> < 2 powi (k + 1)"
  shows "rnd x = of_int (round_half_even (x / 2 powi (k - 52))) * 2 powi (k - 52)"
proof -
  have "0 < \<bar>x\<bar>" using assms(1) pow2_pos [of k] by linarith
  then have "x \<noteq> 0" by auto
  then show ?thesis by (simp add: rnd_def binade_eq [OF assms])
qed

lemma round_half_even_ge: "of_int n \<le> y \<Longrightarrow> n \<le> round_half_even y"
  unfolding round_half_even_def Let_def by (auto simp: le_floor_iff; linarith)

lemma round_half_even_le: "y \<le> of_int n \<Longrightarrow> round_half_even y \<le> n"
proof (cases "y = of_int \<lfloor>y\<rfloor>")
  case True
  assume "y \<le> of_int n"
  then have "\<lfloor>y\<rfloor> \<le> n" using True by linarith
  moreover have "round_half_even y = \<lfloor>y\<rfloor>"
    using True by (simp add: round_half_even_def Let_def)
  ultimately show ?thesis by simp
next
  case False
  assume yn: "y \<le> of_int n"
  have "of_int \<lfloor>y\<rfloor> < y" using False by linarith
  then have "of_int \<lfloor>y\<rfloor> < (of_int n :: real)" using yn by linarith
  then have "\<lfloor>y\<rfloor> + 1 \<le> n" by linarith
  moreover have "round_half_even y \<le> \<lfloor>y\<rfloor> + 1"
    by (simp add: round_half_even_def Let_def)
  ultimately show ?thesis by linarith
qed

lemma pow2_Suc: "(2::real) powi (k + 1) = 2 * 2 powi k"
proof -
  have "(2::real) powi (k + 1) = 2 powi k * 2 powi 1"
    by (rule power_int_add) simp
  then show ?thesis by simp
qed



lemma pow2_add_nat: "(2::real) powi (j + int n) = 2 ^ n * 2 powi j"
  by (simp add: power_int_add)

lemma rnd_scaled_int:
  assumes lo: "2 ^ 52 \<le> \<bar>m\<bar>" and hi: "\<bar>m\<bar> \<le> 2 ^ 53"
  shows "rnd (of_int m * 2 powi j) = of_int m * 2 powi j"
proof (cases "\<bar>m\<bar> = 2 ^ 53")
  case False
  then have lt: "\<bar>m\<bar> < 2 ^ 53" using hi by simp
  let ?r = "of_int m * (2::real) powi j"
  have a: "\<bar>?r\<bar> = of_int \<bar>m\<bar> * 2 powi j" by (simp add: abs_mult)
  have p52: "(2::real) powi (j + 52) = 2 ^ 52 * 2 powi j"
    using pow2_add_nat [of j 52] by simp
  have "(2::real) powi (j + 52 + 1) = 2 * 2 powi (j + 52)" by (rule pow2_Suc)
  also have "\<dots> = 2 * (2 ^ 52 * 2 powi j)" by (simp only: p52)
  also have "\<dots> = 2 ^ 53 * 2 powi j" by simp
  finally have p53: "(2::real) powi (j + 52 + 1) = 2 ^ 53 * 2 powi j" .
  have "(of_int (2 ^ 52) :: real) \<le> of_int \<bar>m\<bar>" using lo by (simp only: of_int_le_iff)
  then have l: "(2 ^ 52 :: real) \<le> of_int \<bar>m\<bar>" by simp
  have "(of_int \<bar>m\<bar> :: real) < of_int (2 ^ 53)" using lt by (simp only: of_int_less_iff)
  then have h: "of_int \<bar>m\<bar> < (2 ^ 53 :: real)" by simp
  have 1: "2 powi (j + 52) \<le> \<bar>?r\<bar>"
    unfolding a p52 using l by (intro mult_right_mono) auto
  have 2: "\<bar>?r\<bar> < 2 powi (j + 52 + 1)"
    unfolding a p53 using h by (intro mult_strict_right_mono) auto
  show ?thesis
    using rnd_eval [OF 1 2] by simp
next
  case True
  then consider "m = 2 ^ 53" | "m = - (2 ^ 53)" by linarith
  then obtain h :: int where m: "m = 2 * h" and h: "\<bar>h\<bar> = 2 ^ 52"
  proof cases
    case 1
    show ?thesis by (rule that [of "2 ^ 52"]) (simp_all add: 1)
  next
    case 2
    show ?thesis by (rule that [of "- (2 ^ 52)"]) (simp_all add: 2)
  qed
  let ?r = "of_int m * (2::real) powi j"
  have r: "?r = of_int h * 2 powi (j + 1)" by (simp add: m pow2_Suc)
  have a: "\<bar>?r\<bar> = 2 ^ 53 * 2 powi j" using True by (simp add: abs_mult)
  have p53: "(2::real) powi (j + 53) = 2 ^ 53 * 2 powi j"
    using pow2_add_nat [of j 53] by simp
  have 1: "2 powi (j + 53) \<le> \<bar>?r\<bar>" unfolding a p53 by simp
  have "(2::real) powi (j + 53 + 1) = 2 * 2 powi (j + 53)" by (rule pow2_Suc)
  also have "\<dots> = 2 * (2 ^ 53 * 2 powi j)" by (simp only: p53)
  finally have p54: "(2::real) powi (j + 53 + 1) = 2 * (2 ^ 53 * 2 powi j)" .
  have 2: "\<bar>?r\<bar> < 2 powi (j + 53 + 1)"
    unfolding a p54 by simp
  have e: "j + 53 - 52 = j + 1" by simp
  have "rnd ?r = of_int (round_half_even (?r / 2 powi (j + 1))) * 2 powi (j + 1)"
    using rnd_eval [OF 1 2] unfolding e .
  also have "?r / 2 powi (j + 1) = of_int h" unfolding r by simp
  finally show ?thesis by (simp add: r)
qed

lemma round_scaled_bounds:
  assumes "x \<noteq> 0"
  shows "2 ^ 52 \<le> \<bar>round_half_even (x / 2 powi (binade x - 52))\<bar> \<and>
         \<bar>round_half_even (x / 2 powi (binade x - 52))\<bar> \<le> 2 ^ 53"
proof -
  let ?y = "x / 2 powi (binade x - 52)"
  from scaled_bounds [OF assms] have b: "2 ^ 52 \<le> \<bar>?y\<bar>" "\<bar>?y\<bar> < 2 ^ 53" by auto
  have c: "(of_int (2 ^ 52) :: real) = 2 ^ 52" "(of_int (2 ^ 53) :: real) = 2 ^ 53"
    "(of_int (- (2 ^ 52)) :: real) = - (2 ^ 52)" "(of_int (- (2 ^ 53)) :: real) = - (2 ^ 53)"
    by simp_all
  show ?thesis
  proof (cases "0 \<le> ?y")
    case True
    have "of_int (2 ^ 52) \<le> ?y" using b(1) True unfolding c by linarith
    then have 1: "2 ^ 52 \<le> round_half_even ?y" by (rule round_half_even_ge)
    have "?y \<le> of_int (2 ^ 53)" using b(2) True unfolding c by linarith
    then have 2: "round_half_even ?y \<le> 2 ^ 53" by (rule round_half_even_le)
    from 1 2 show ?thesis by simp
  next
    case False
    have "?y \<le> of_int (- (2 ^ 52))" using b(1) False unfolding c by linarith
    then have 1: "round_half_even ?y \<le> - (2 ^ 52)" by (rule round_half_even_le)
    have "of_int (- (2 ^ 53)) \<le> ?y" using b(2) False unfolding c by linarith
    then have 2: "- (2 ^ 53) \<le> round_half_even ?y" by (rule round_half_even_ge)
    from 1 2 show ?thesis by simp
  qed
qed

lemma rnd_idem [simp]: "rnd (rnd x) = rnd x"
proof (cases "x = 0")
  case True
  then show ?thesis by simp
next
  case False
  from round_scaled_bounds [OF False] rnd_scaled_int
  have "rnd (of_int (round_half_even (x / 2 powi (binade x - 52))) * 2 powi (binade x - 52)) =
        of_int (round_half_even (x / 2 powi (binade x - 52))) * 2 powi (binade x - 52)"
    by blast
  then show ?thesis using False by (simp add: rnd_def)
qed


lemma rnd_cent: "rnd (1 / 100) = 5764607523034235 / 2 ^ 59"
  by (simp add: rnd_eval [of "-7"] round_half_even_def Let_def)










section \<open>Properties of vwap\<close>

lemma mkbar_fields:
  "b_ts (mkbar t a b c d e) = t" "b_open (mkbar t a b c d e) = a" "b_high (mkbar t a b c d e) = b"
  "b_low (mkbar t a b c d e) = c" "b_close (mkbar t a b c d e) = d" "b_volume (mkbar t a b c d e) = e"
  by (simp_all add: mkbar_def)






















section \<open>Properties of compute_scalp_signal: decision and levels\<close>

lemma compute_cases:
  assumes "compute_scalp_signal cs sy ohlcv rf rs mh mode pro ao am ap lb = Inr r"
  shows "(bias r = ''NEUTRAL'' \<and> setup_score r = 0) \<or>
         (60 \<le> length ohlcv \<and> tail_df lb ohlcv \<noteq> [] \<and>
          session_allowed (cs (b_ts (last ohlcv))) ao am ap \<and>
          (\<exists>osc obs. oscillators (tail_df lb ohlcv) rf rs mh = Inr osc \<and>
             order_blocks (tail_df lb ohlcv) = Inr obs \<and>
             r = decide sy (cs (b_ts (last ohlcv)))
                   (mk_frame (PRESETS_get mode) pro (tail_df lb ohlcv) osc obs)))"
proof (cases "length ohlcv < 60")
  case True
  then show ?thesis using assms by (auto simp: compute_scalp_signal_def)
next
  case False
  let ?df = "tail_df lb ohlcv"
  from assms False obtain osc where osc: "oscillators ?df rf rs mh = Inr osc"
    by (auto simp: compute_scalp_signal_def Let_def split: sum.splits)
  from assms False osc have ne: "?df \<noteq> []"
    by (auto simp: compute_scalp_signal_def Let_def split: if_splits)
  then have l: "last ?df = last ohlcv" by (rule last_tail_df)
  show ?thesis
  proof (cases "session_allowed (cs (b_ts (last ohlcv))) ao am ap")
    case False
    then show ?thesis
      using assms \<open>\<not> length ohlcv < 60\<close> osc ne l
      by (auto simp: compute_scalp_signal_def Let_def)
  next
    case True
    then obtain obs where "order_blocks ?df = Inr obs"
        "r = decide sy (cs (b_ts (last ohlcv))) (mk_frame (PRESETS_get mode) pro ?df osc obs)"
      using assms \<open>\<not> length ohlcv < 60\<close> osc ne l
      by (auto simp: compute_scalp_signal_def Let_def split: sum.splits)
    then show ?thesis
      using True \<open>\<not> length ohlcv < 60\<close> osc ne by auto
  qed
qed

lemma compute_decided:
  assumes "compute_scalp_signal cs sy ohlcv rf rs mh mode pro ao am ap lb = Inr r"
    and "60 \<le> length ohlcv"
    and "session_allowed (cs (b_ts (last ohlcv))) ao am ap"
    and "oscillators (tail_df lb ohlcv) rf rs mh = Inr osc"
    and "order_blocks (tail_df lb ohlcv) = Inr obs"
  shows "r = decide sy (cs (b_ts (last ohlcv)))
               (mk_frame (PRESETS_get mode) pro (tail_df lb ohlcv) osc obs)"
proof -
  have ne: "tail_df lb ohlcv \<noteq> []"
    using assms(1,2,4) by (auto simp: compute_scalp_signal_def Let_def split: if_splits)
  then have l: "last (tail_df lb ohlcv) = last ohlcv" by (rule last_tail_df)
  show ?thesis
    using assms ne l by (auto simp: compute_scalp_signal_def Let_def)
qed

lemma bias_decide:
  "bias (decide sy sess F) = ''LONG'' \<or> bias (decide sy sess F) = ''SHORT'' \<or>
   bias (decide sy sess F) = ''NEUTRAL''"
  by (simp add: decide_def Let_def split: option.splits)

lemma decide_long_iff:
  assumes "gate_failure F = None"
  shows "bias (decide sy sess F) = ''LONG'' \<longleftrightarrow>
     min_actionable_score (f_cfg F) \<le> long_points (scoring F) \<and>
     short_points (scoring F) < long_points (scoring F)"
  using assms by (simp add: decide_def Let_def)

lemma decide_short_iff:
  assumes "gate_failure F = None"
  shows "bias (decide sy sess F) = ''SHORT'' \<longleftrightarrow>
     min_actionable_score (f_cfg F) \<le> short_points (scoring F) \<and>
     long_points (scoring F) < short_points (scoring F)"
  using assms by (auto simp add: decide_def Let_def)

lemma decide_neutral:
  assumes "gate_failure F = None"
    and "bias (decide sy sess F) \<noteq> ''LONG''" and "bias (decide sy sess F) \<noteq> ''SHORT''"
  shows "bias (decide sy sess F) = ''NEUTRAL'' \<and>
         reason (decide sy sess F) = neutral_reason (scoring F)"
  using assms by (auto simp add: decide_def Let_def split: if_splits)

text \<open>
  C4. When the call passes the sufficiency gate, the session gate and every enabled
  requirement (the pro-mode trigger included), the bias is LONG exactly when the long
  total reaches the preset's \<open>min_actionable_score\<close> and exceeds the short total, SHORT
  exactly when the short total does so against the long one, and otherwise NEUTRAL with
  the reason that lists the totals and the contributing rules of both sides.
\<close>

theorem decision_rule:
  assumes "compute_scalp_signal cs sy ohlcv rf rs mh mode pro ao am ap lb = Inr r"
    and "60 \<le> length ohlcv"
    and "session_allowed (cs (b_ts (last ohlcv))) ao am ap"
    and "oscillators (tail_df lb ohlcv) rf rs mh = Inr osc"
    and "order_blocks (tail_df lb ohlcv) = Inr obs"
    and "F = mk_frame (PRESETS_get mode) pro (tail_df lb ohlcv) osc obs"
    and "gate_failure F = None"
  shows "(bias r = ''LONG'' \<longleftrightarrow>
            min_actionable_score (PRESETS_get mode) \<le> long_points (scoring F) \<and>
            short_points (scoring F) < long_points (scoring F)) \<and>
         (bias r = ''SHORT'' \<longleftrightarrow>
            min_actionable_score (PRESETS_get mode) \<le> short_points (scoring F) \<and>
            long_points (scoring F) < short_points (scoring F)) \<and>
         (bias r \<noteq> ''LONG'' \<and> bias r \<noteq> ''SHORT'' \<longrightarrow>
            bias r = ''NEUTRAL'' \<and>
            reason r =
              ''LongScore='' @ str_int (long_points (scoring F)) @ '' ('' @
              str_join '', '' (long_reasons (scoring F)) @ ''); ShortScore='' @
              str_int (short_points (scoring F)) @ '' ('' @
              str_join '', '' (short_reasons (scoring F)) @ '')'')"
proof -
  have r: "r = decide sy (cs (b_ts (last ohlcv))) F"
    using compute_decided [OF assms(1-5)] assms(6) by simp
  have cfg: "f_cfg F = PRESETS_get mode"
    using assms(6) by (simp add: mk_frame_def)
  show ?thesis
    using decide_long_iff [OF assms(7), of sy "cs (b_ts (last ohlcv))"]
      decide_short_iff [OF assms(7), of sy "cs (b_ts (last ohlcv))"]
      decide_neutral [OF assms(7), of sy "cs (b_ts (last ohlcv))"]
    unfolding r cfg neutral_reason_def by blast
qed


lemma length_tr_from: "length (tr_from p df) = length df"
  by (induction df arbitrary: p) simp_all










section \<open>The score and the bias\<close>

lemma add_long_points:
  "long_points (add_long c n r s) = long_points s + (if c then n else 0)"
  "short_points (add_long c n r s) = short_points s"
  by (simp_all add: add_long_def)

lemma add_short_points:
  "short_points (add_short c n r s) = short_points s + (if c then n else 0)"
  "long_points (add_short c n r s) = long_points s"
  by (simp_all add: add_short_def)

lemma add_both_points:
  "long_points (add_both c n s) = long_points s + (if c then n else 0)"
  "short_points (add_both c n s) = short_points s + (if c then n else 0)"
  by (simp_all add: add_both_def)

lemma penalty_points:
  "long_points (penalty_long c s) = (if c then max 0 (long_points s - 15) else long_points s)"
  "short_points (penalty_long c s) = short_points s"
  "short_points (penalty_short c s) = (if c then max 0 (short_points s - 15) else short_points s)"
  "long_points (penalty_short c s) = long_points s"
  by (simp_all add: penalty_long_def penalty_short_def)

lemma basic_points_range:
  assumes "s = run_steps (basic_steps F)
             \<lparr>long_points = 0, long_reasons = [], short_points = 0, short_reasons = []\<rparr>"
  shows "0 \<le> long_points s \<and> long_points s \<le> 100 \<and> 0 \<le> short_points s \<and> short_points s \<le> 100"
  unfolding assms
  by (simp add: run_steps_def basic_steps_def Let_def add_long_points add_short_points)

lemma pro_points_nonneg:
  assumes "0 \<le> long_points s \<and> 0 \<le> short_points s"
  shows "0 \<le> long_points (run_steps (pro_steps F) s) \<and>
         0 \<le> short_points (run_steps (pro_steps F) s)"
  using assms
  by (simp add: run_steps_def pro_steps_def Let_def add_long_points add_short_points
      add_both_points penalty_points)

lemma scoring_nonneg: "0 \<le> long_points (scoring F) \<and> 0 \<le> short_points (scoring F)"
proof -
  let ?b = "run_steps (basic_steps F)
      \<lparr>long_points = 0, long_reasons = [], short_points = 0, short_reasons = []\<rparr>"
  have b: "0 \<le> long_points ?b \<and> 0 \<le> short_points ?b"
    using basic_points_range [OF refl, of F] by simp
  show ?thesis
  proof (cases "f_pro F")
    case True
    then show ?thesis using pro_points_nonneg [OF b] by (simp add: scoring_def)
  next
    case False
    then show ?thesis using b by (simp add: scoring_def run_steps_def)
  qed
qed

lemma scoring_basic_le_100:
  "\<not> f_pro F \<Longrightarrow> long_points (scoring F) \<le> 100 \<and> short_points (scoring F) \<le> 100"
  using basic_points_range [OF refl, of F] by (simp add: scoring_def run_steps_def)

lemma decide_score_cases:
  "setup_score (decide sy sess F) = max (long_points (scoring F)) (short_points (scoring F)) \<or>
   setup_score (decide sy sess F) = min 100 (long_points (scoring F)) \<or>
   setup_score (decide sy sess F) = min 100 (short_points (scoring F))"
  by (simp add: decide_def Let_def split: option.splits)

lemma signal_score_bias:
  assumes "compute_scalp_signal cs sy ohlcv rf rs mh mode pro ao am ap lb = Inr r"
  shows "0 \<le> setup_score r \<and> (\<not> pro \<longrightarrow> setup_score r \<le> 100) \<and>
         (bias r = ''LONG'' \<or> bias r = ''SHORT'' \<or> bias r = ''NEUTRAL'') \<and>
         (bias r \<noteq> ''NEUTRAL'' \<longrightarrow> setup_score r \<le> 100)"
proof -
  from compute_cases [OF assms] show ?thesis
  proof
    assume "bias r = ''NEUTRAL'' \<and> setup_score r = 0"
    then show ?thesis by simp
  next
    assume "60 \<le> length ohlcv \<and> tail_df lb ohlcv \<noteq> [] \<and>
          session_allowed (cs (b_ts (last ohlcv))) ao am ap \<and>
          (\<exists>osc obs. oscillators (tail_df lb ohlcv) rf rs mh = Inr osc \<and>
             order_blocks (tail_df lb ohlcv) = Inr obs \<and>
             r = decide sy (cs (b_ts (last ohlcv)))
                   (mk_frame (PRESETS_get mode) pro (tail_df lb ohlcv) osc obs))"
    then obtain osc obs where r: "r = decide sy (cs (b_ts (last ohlcv)))
                   (mk_frame (PRESETS_get mode) pro (tail_df lb ohlcv) osc obs)"
      by blast
    let ?F = "mk_frame (PRESETS_get mode) pro (tail_df lb ohlcv) osc obs"
    have p: "f_pro ?F = pro" by (simp add: mk_frame_def)
    note n = scoring_nonneg [of ?F]
    note c = decide_score_cases [of sy "cs (b_ts (last ohlcv))" ?F]
    have lo: "0 \<le> setup_score r" unfolding r using n c by auto
    have hi: "\<not> pro \<Longrightarrow> setup_score r \<le> 100"
      unfolding r using scoring_basic_le_100 [of ?F] p c by auto
    have b: "bias r = ''LONG'' \<or> bias r = ''SHORT'' \<or> bias r = ''NEUTRAL''"
      unfolding r by (rule bias_decide)
    have d: "bias r \<noteq> ''NEUTRAL'' \<Longrightarrow> setup_score r \<le> 100"
      unfolding r by (simp add: decide_def Let_def split: option.splits if_splits)
    show ?thesis using lo hi b d by blast
  qed
qed

section \<open>The example, evaluated\<close>

lemma quiet_fields:
  "b_ts (quiet_bar t) = int t" "b_open (quiet_bar t) = 100" "b_high (quiet_bar t) = 100.2"
  "b_low (quiet_bar t) = 99.8" "b_close (quiet_bar t) = 100" "b_volume (quiet_bar t) = 1000"
  by (simp_all add: quiet_bar_def mkbar_def)

lemmas bar_fields = quiet_fields mkbar_fields

lemma length_ex_tail: "length ex_tail = 6"
  by (simp add: ex_tail_def)

lemma ex_cfg: "PRESETS_get ''Cleaner signals'' = cleaner_signals"
  by (simp add: PRESETS_get_def PRESETS_def)

lemma ex_bars_explicit: "ex_bars = [quiet_bar 0, quiet_bar 1, quiet_bar 2, quiet_bar 3, quiet_bar 4, quiet_bar 5, quiet_bar 6, quiet_bar 7, quiet_bar 8, quiet_bar 9, quiet_bar 10, quiet_bar 11, quiet_bar 12, quiet_bar 13, quiet_bar 14, quiet_bar 15, quiet_bar 16, quiet_bar 17, quiet_bar 18, quiet_bar 19, quiet_bar 20, quiet_bar 21, quiet_bar 22, quiet_bar 23, quiet_bar 24, quiet_bar 25, quiet_bar 26, quiet_bar 27, quiet_bar 28, quiet_bar 29, quiet_bar 30, quiet_bar 31, quiet_bar 32, quiet_bar 33, quiet_bar 34, quiet_bar 35, quiet_bar 36, quiet_bar 37, quiet_bar 38, quiet_bar 39, quiet_bar 40, quiet_bar 41, quiet_bar 42, quiet_bar 43, quiet_bar 44, quiet_bar 45, quiet_bar 46, quiet_bar 47, quiet_bar 48, quiet_bar 49, quiet_bar 50, quiet_bar 51, quiet_bar 52, quiet_bar 53, mkbar 54 100 100.1 98.5 98.8 1200, mkbar 55 98.8 99.0 98.0 98.6 1100, mkbar 56 98.6 98.9 98.5 98.55 900, mkbar 57 98.55 98.9 98.5 98.8 800, mkbar 58 98.8 98.95 98.6 98.9 900, mkbar 59 99.0 101.5 99.0 101.0 2500]"
  by (simp add: ex_bars_def ex_tail_def upt_rec_numeral upt_conv_Cons quiet_bar_def)

lemma ex_bars_tail_180: "tail_df 180 ex_bars = ex_bars"
  by (simp add: tail_df_def length_ex_bars)

lemma ex_bars_lows: "map b_low ex_bars = [99.8, 99.8, 99.8, 99.8, 99.8, 99.8, 99.8, 99.8, 99.8, 99.8, 99.8, 99.8, 99.8, 99.8, 99.8, 99.8, 99.8, 99.8, 99.8, 99.8, 99.8, 99.8, 99.8, 99.8, 99.8, 99.8, 99.8, 99.8, 99.8, 99.8, 99.8, 99.8, 99.8, 99.8, 99.8, 99.8, 99.8, 99.8, 99.8, 99.8, 99.8, 99.8, 99.8, 99.8, 99.8, 99.8, 99.8, 99.8, 99.8, 99.8, 99.8, 99.8, 99.8, 99.8, 98.5, 98.0, 98.5, 98.5, 98.6, 99.0]"
  by (simp add: ex_bars_explicit bar_fields)

lemma ex_bars_highs: "map b_high ex_bars = [100.2, 100.2, 100.2, 100.2, 100.2, 100.2, 100.2, 100.2, 100.2, 100.2, 100.2, 100.2, 100.2, 100.2, 100.2, 100.2, 100.2, 100.2, 100.2, 100.2, 100.2, 100.2, 100.2, 100.2, 100.2, 100.2, 100.2, 100.2, 100.2, 100.2, 100.2, 100.2, 100.2, 100.2, 100.2, 100.2, 100.2, 100.2, 100.2, 100.2, 100.2, 100.2, 100.2, 100.2, 100.2, 100.2, 100.2, 100.2, 100.2, 100.2, 100.2, 100.2, 100.2, 100.2, 100.1, 99.0, 98.9, 98.9, 98.95, 101.5]"
  by (simp add: ex_bars_explicit bar_fields)

lemma ex_bars_volumes: "map b_volume ex_bars = [1000, 1000, 1000, 1000, 1000, 1000, 1000, 1000, 1000, 1000, 1000, 1000, 1000, 1000, 1000, 1000, 1000, 1000, 1000, 1000, 1000, 1000, 1000, 1000, 1000, 1000, 1000, 1000, 1000, 1000, 1000, 1000, 1000, 1000, 1000, 1000, 1000, 1000, 1000, 1000, 1000, 1000, 1000, 1000, 1000, 1000, 1000, 1000, 1000, 1000, 1000, 1000, 1000, 1000, 1200, 1100, 900, 800, 900, 2500]"
  by (simp add: ex_bars_explicit bar_fields)

lemma ex_bars_closes: "map b_close ex_bars = [100, 100, 100, 100, 100, 100, 100, 100, 100, 100, 100, 100, 100, 100, 100, 100, 100, 100, 100, 100, 100, 100, 100, 100, 100, 100, 100, 100, 100, 100, 100, 100, 100, 100, 100, 100, 100, 100, 100, 100, 100, 100, 100, 100, 100, 100, 100, 100, 100, 100, 100, 100, 100, 100, 98.8, 98.6, 98.55, 98.8, 98.9, 101.0]"
  by (simp add: ex_bars_explicit bar_fields)

lemma ex_bars_vwap_events:
  "was_below_vwap ex_bars" "reclaim_vwap ex_bars" "\<not> reject_vwap ex_bars"
  by (simp_all add: was_below_vwap_def reclaim_vwap_def reject_vwap_def closes_def vwap_def
      cumsum_def pv_def tp_def ex_bars_explicit bar_fields shift_def
      fl_lt_def fl_gt_def fl_le_def fl_ge_def)

lemma nan57: "replicate 57 NaN = [NaN, NaN, NaN, NaN, NaN, NaN, NaN, NaN, NaN, NaN, NaN, NaN, NaN, NaN, NaN, NaN, NaN, NaN, NaN, NaN, NaN, NaN, NaN, NaN, NaN, NaN, NaN, NaN, NaN, NaN, NaN, NaN, NaN, NaN, NaN, NaN, NaN, NaN, NaN, NaN, NaN, NaN, NaN, NaN, NaN, NaN, NaN, NaN, NaN, NaN, NaN, NaN, NaN, NaN, NaN, NaN, NaN]"
  by (simp add: numeral_eq_Suc)

lemma ex_bars_oscillators:
  "oscillators ex_bars ex_rsi_fast ex_rsi_slow ex_macd_hist = Inr ex_osc"
  by (simp add: oscillators_def reindex_def ffill_def Let_def ex_bars_explicit bar_fields
      ex_rsi_fast_def ex_rsi_slow_def ex_macd_hist_def ex_osc_def nan57)

lemma ex_bars_vol_ok: "vol_ok cleaner_signals ex_bars"
  by (simp add: vol_ok_def vol_med_def rolling_median_def ex_bars_volumes median_def Let_def
      upt_rec_numeral upt_conv_Cons cleaner_signals_def last_ex_bars bar_fields)

lemma ex_bars_micro: "higher_low ex_bars" "\<not> lower_high ex_bars"
  by (simp_all add: higher_low_def lower_high_def tail_df_def ex_bars_lows ex_bars_highs)

lemma ex_bars_swing_lows:
  "recent_swing_lows ex_bars = [99.8, 99.8, 99.8, 99.8, 99.8, 98.0]"
  by (simp add: recent_swing_lows_def rolling_swing_lows_def flagged_def ex_bars_lows
      tail_df_def upt_rec_numeral upt_conv_Cons)

lemma ex_bars_swing_highs:
  "recent_swing_highs ex_bars = [100.2, 100.2, 100.2, 100.2, 100.2, 100.2]"
  by (simp add: recent_swing_highs_def rolling_swing_highs_def flagged_def ex_bars_highs
      tail_df_def upt_rec_numeral upt_conv_Cons)

lemma ex_bars_swing_refs:
  "recent_swing_low ex_bars = 98" "prior_swing_low ex_bars = 98"
  "recent_swing_high ex_bars = 100.2" "prior_swing_high ex_bars = 100.2"
  by (simp_all add: recent_swing_low_def prior_swing_low_def recent_swing_high_def
      prior_swing_high_def ex_bars_swing_lows ex_bars_swing_highs)

lemma ex_bars_sweeps: "\<not> bull_sweep ex_bars" "\<not> bear_sweep ex_bars"
  by (simp_all add: bull_sweep_def bear_sweep_def ex_bars_swing_refs last_ex_bars bar_fields)

lemma ex_bars_atr14: "atr14 ex_bars = [NaN, NaN, NaN, NaN, NaN, NaN, NaN, NaN, NaN, NaN, NaN, NaN, NaN, Fin (2 / 5), Fin (2 / 5), Fin (2 / 5), Fin (2 / 5), Fin (2 / 5), Fin (2 / 5), Fin (2 / 5), Fin (2 / 5), Fin (2 / 5), Fin (2 / 5), Fin (2 / 5), Fin (2 / 5), Fin (2 / 5), Fin (2 / 5), Fin (2 / 5), Fin (2 / 5), Fin (2 / 5), Fin (2 / 5), Fin (2 / 5), Fin (2 / 5), Fin (2 / 5), Fin (2 / 5), Fin (2 / 5), Fin (2 / 5), Fin (2 / 5), Fin (2 / 5), Fin (2 / 5), Fin (2 / 5), Fin (2 / 5), Fin (2 / 5), Fin (2 / 5), Fin (2 / 5), Fin (2 / 5), Fin (2 / 5), Fin (2 / 5), Fin (2 / 5), Fin (2 / 5), Fin (2 / 5), Fin (2 / 5), Fin (2 / 5), Fin (2 / 5), Fin (17 / 35), Fin (37 / 70), Fin (37 / 70), Fin (37 / 70), Fin (21 / 40), Fin (191 / 280)]"
  by (simp add: atr14_def atr_def rolling_mean_def ex_bars_explicit bar_fields upt_rec_numeral
      upt_conv_Cons)

lemma ex_bars_atr_last: "atr_last ex_bars = 191 / 280"
  by (simp add: atr_last_def ex_bars_atr14)

lemma ex_bars_displacement: "displacement ex_bars"
  by (simp add: displacement_def ex_bars_atr_last last_ex_bars bar_fields)

lemma ema_from_const_prefix:
  "ema_from \<alpha> c (replicate n c @ ys) = replicate n c @ ema_from \<alpha> c ys"
proof (induction n)
  case 0
  then show ?case by simp
next
  case (Suc n)
  have "(1 - \<alpha>) * c + \<alpha> * c = c" by (simp add: algebra_simps)
  then show ?case using Suc by (simp add: Let_def)
qed

lemma last_ema_const_prefix:
  assumes "ys \<noteq> []" and "0 < n"
  shows "last (ema (replicate n c @ ys) spn) = last (ema_from (2 / (real spn + 1)) c ys)"
proof -
  obtain m where n: "n = Suc m"
    using assms(2) by (cases n) auto
  have ne: "ema_from (2 / (real spn + 1)) c ys \<noteq> []"
    using assms(1) by (cases ys) (simp_all add: Let_def)
  show ?thesis
    using ne by (simp add: n ema_def ema_from_const_prefix)
qed

lemma ex_bars_closes_prefix:
  "map b_close ex_bars = replicate 54 100 @ [98.8, 98.6, 98.55, 98.8, 98.9, 101]"
  by (simp add: ex_bars_def ex_tail_def o_def bar_fields map_replicate_const)

lemma ex_bars_ema20: "last (ema (map b_close ex_bars) 20) = 9495833087 / 95295690"
  unfolding ex_bars_closes_prefix
  by (subst last_ema_const_prefix) (simp_all add: Let_def)

lemma ex_bars_ema50: "last (ema (map b_close ex_bars) 50) = 5854788616631 / 58654292670"
  unfolding ex_bars_closes_prefix
  by (subst last_ema_const_prefix) (simp_all add: Let_def)

lemma ex_bars_trend: "\<not> trend_long_ok ex_bars" "\<not> trend_short_ok ex_bars"
  by (simp_all add: trend_long_ok_def trend_short_ok_def ex_bars_ema20 ex_bars_ema50
      last_ex_bars bar_fields)

lemma ex_bars_fvg:
  "detect_fvg (tail_df 60 ex_bars) = (Some (98.9, 99), Some (99, 99.8))"
  by (simp add: detect_fvg_def fvg_step_def tail_df_def length_ex_bars ex_bars_lows
      ex_bars_highs Let_def upt_rec_numeral)

lemma reindex_zip_drop:
  assumes "distinct ts" and "length vs = length ts"
  shows "reindex (zip ts vs) (drop k ts) = Inr (drop k vs)"
proof -
  have fst: "map fst (zip ts vs) = ts"
    using assms(2) by (simp add: map_fst_zip)
  have snd: "map snd (zip ts vs) = vs"
    using assms(2) by (simp add: map_snd_zip)
  show ?thesis
  proof (cases "ts = drop k ts")
    case True
    then have "length ts = length ts - k" by (metis length_drop)
    then have "k = 0 \<or> length ts = 0" by arith
    then have "drop k vs = vs" using assms(2) by auto
    then show ?thesis using True fst snd by (simp add: reindex_def)
  next
    case False
    have "map (\<lambda>t. case map_of (zip ts vs) t of None \<Rightarrow> NaN | Some v \<Rightarrow> v) (drop k ts) =
        drop k vs"
    proof (rule nth_equalityI)
      show "length (map (\<lambda>t. case map_of (zip ts vs) t of None \<Rightarrow> NaN | Some v \<Rightarrow> v)
          (drop k ts)) = length (drop k vs)"
        using assms(2) by simp
    next
      fix i
      assume "i < length (map (\<lambda>t. case map_of (zip ts vs) t of None \<Rightarrow> NaN | Some v \<Rightarrow> v)
          (drop k ts))"
      then have i: "k + i < length ts" by simp
      then have "map_of (zip ts vs) (ts ! (k + i)) = Some (vs ! (k + i))"
        using assms by (simp add: map_of_zip_nth)
      then show "map (\<lambda>t. case map_of (zip ts vs) t of None \<Rightarrow> NaN | Some v \<Rightarrow> v)
          (drop k ts) ! i = drop k vs ! i"
        using i assms(2) by simp
    qed
    then show ?thesis
      using False fst assms(1) by (simp add: reindex_def)
  qed
qed

lemma ex_bars_distinct: "distinct (map b_ts ex_bars)"
  by (simp add: ex_bars_explicit bar_fields)

lemma ex_bars_ob_window: "ob_window ex_bars 35 = drop 25 ex_bars"
  by (simp add: ob_window_def tail_df_def length_ex_bars)

lemma ex_bars_ob_atr:
  "ob_atr ex_bars (zip (map b_ts ex_bars) (atr14 ex_bars)) 35 = Inr [Fin (2 / 5), Fin (2 / 5), Fin (2 / 5), Fin (2 / 5), Fin (2 / 5), Fin (2 / 5), Fin (2 / 5), Fin (2 / 5), Fin (2 / 5), Fin (2 / 5), Fin (2 / 5), Fin (2 / 5), Fin (2 / 5), Fin (2 / 5), Fin (2 / 5), Fin (2 / 5), Fin (2 / 5), Fin (2 / 5), Fin (2 / 5), Fin (2 / 5), Fin (2 / 5), Fin (2 / 5), Fin (2 / 5), Fin (2 / 5), Fin (2 / 5), Fin (2 / 5), Fin (2 / 5), Fin (2 / 5), Fin (2 / 5), Fin (17 / 35), Fin (37 / 70), Fin (37 / 70), Fin (37 / 70), Fin (21 / 40), Fin (191 / 280)]"
proof -
  have l: "length (atr14 ex_bars) = length (map b_ts ex_bars)"
    by (simp add: atr14_def atr_def rolling_mean_def length_tr_from)
  have "reindex (zip (map b_ts ex_bars) (atr14 ex_bars)) (drop 25 (map b_ts ex_bars)) =
      Inr (drop 25 (atr14 ex_bars))"
    by (rule reindex_zip_drop [OF ex_bars_distinct l])
  then show ?thesis
    by (simp add: ob_atr_def ex_bars_ob_window drop_map ex_bars_atr14 ffill_def Let_def)
qed

lemma scan_bull_numeral:
  "scan_bull w atv (numeral k) = scan_bull w atv (Suc (pred_numeral k))"
  by (simp add: numeral_eq_Suc)

lemma scan_bear_numeral:
  "scan_bear w atv (numeral k) = scan_bear w atv (Suc (pred_numeral k))"
  by (simp add: numeral_eq_Suc)

lemma ex_bars_ob_bull:
  "ob_index (drop 25 ex_bars) [Fin (2 / 5), Fin (2 / 5), Fin (2 / 5), Fin (2 / 5), Fin (2 / 5), Fin (2 / 5), Fin (2 / 5), Fin (2 / 5), Fin (2 / 5), Fin (2 / 5), Fin (2 / 5), Fin (2 / 5), Fin (2 / 5), Fin (2 / 5), Fin (2 / 5), Fin (2 / 5), Fin (2 / 5), Fin (2 / 5), Fin (2 / 5), Fin (2 / 5), Fin (2 / 5), Fin (2 / 5), Fin (2 / 5), Fin (2 / 5), Fin (2 / 5), Fin (2 / 5), Fin (2 / 5), Fin (2 / 5), Fin (2 / 5), Fin (17 / 35), Fin (37 / 70), Fin (37 / 70), Fin (37 / 70), Fin (21 / 40), Fin (191 / 280)] ''bull'' = Some 31"
  by (simp add: ob_index_def length_ex_bars scan_bull_numeral displaced_up_def
      ex_bars_explicit bar_fields)

lemma ex_bars_ob_bear:
  "ob_index (drop 25 ex_bars) [Fin (2 / 5), Fin (2 / 5), Fin (2 / 5), Fin (2 / 5), Fin (2 / 5), Fin (2 / 5), Fin (2 / 5), Fin (2 / 5), Fin (2 / 5), Fin (2 / 5), Fin (2 / 5), Fin (2 / 5), Fin (2 / 5), Fin (2 / 5), Fin (2 / 5), Fin (2 / 5), Fin (2 / 5), Fin (2 / 5), Fin (2 / 5), Fin (2 / 5), Fin (2 / 5), Fin (2 / 5), Fin (2 / 5), Fin (2 / 5), Fin (2 / 5), Fin (2 / 5), Fin (2 / 5), Fin (2 / 5), Fin (2 / 5), Fin (17 / 35), Fin (37 / 70), Fin (37 / 70), Fin (37 / 70), Fin (21 / 40), Fin (191 / 280)] ''bear'' = None"
  by (simp add: ob_index_def length_ex_bars scan_bear_numeral displaced_down_def
      ex_bars_explicit bar_fields)

lemma ex_bars_order_blocks: "order_blocks ex_bars = Inr (Some (98.5, 98.6, 56), None)"
  by (simp add: order_blocks_def find_order_block_def length_ex_bars ex_bars_ob_atr
      ex_bars_ob_window ex_bars_ob_bull ex_bars_ob_bear)
     (simp add: ob_zone_def ex_bars_explicit bar_fields Let_def)

lemma ex_frame_fields:
  "f_cfg (ex_frame p) = cleaner_signals" "f_pro (ex_frame p) = p"
  "f_df (ex_frame p) = ex_bars"
  "f_ob_bull (ex_frame p) = Some (98.5, 98.6, 56)" "f_ob_bear (ex_frame p) = None"
  by (simp_all add: ex_frame_def mk_frame_def)

lemma ex_frame_events:
  "vwap_long (ex_frame p)" "\<not> vwap_short (ex_frame p)"
  "\<not> bull_ob_retest (ex_frame p)" "\<not> bear_ob_retest (ex_frame p)"
  "bull_fvg (ex_frame p) = Some (98.9, 99)" "bear_fvg (ex_frame p) = Some (99, 99.8)"
  by (simp_all add: vwap_long_def vwap_short_def bull_ob_retest_def bear_ob_retest_def
      bull_fvg_def bear_fvg_def ob_retest_def in_zone_def buffer_def ex_bars_atr_last
      last_ex_bars bar_fields ex_frame_fields ex_bars_vwap_events ex_bars_fvg)

lemma ex_frame_oscillators:
  "rsi_snap (f_rsi_fast (ex_frame p))" "\<not> rsi_downshift (f_rsi_fast (ex_frame p))"
  "fl_lt (last (f_rsi_slow (ex_frame p))) (Fin 60)"
  "macd_turn_up (f_macd_hist (ex_frame p))"
  "\<not> macd_turn_down (f_macd_hist (ex_frame p))"
  by (simp_all add: ex_frame_def mk_frame_def ex_osc_def rsi_snap_def
      rsi_downshift_def macd_turn_up_def macd_turn_down_def shift_def fl_lt_def fl_gt_def
      fl_le_def fl_ge_def Let_def)

lemmas ex_events =
  ex_frame_fields ex_frame_events ex_frame_oscillators ex_bars_vol_ok
  ex_bars_micro ex_bars_sweeps ex_bars_displacement ex_bars_trend

lemma ex_scoring_pro:
  "scoring (ex_frame True) =
     \<lparr>long_points = 115,
      long_reasons = [''VWAP reclaim'', ''RSI-5 snapback (RSI-14 ok)'', ''MACD hist turning up'',
                      ''Volume confirmation'', ''Higher-low micro structure'',
                      ''Bullish FVG present''],
      short_points = 15, short_reasons = [''Volume confirmation'', ''Bearish FVG present'']\<rparr>"
  by (simp add: scoring_def run_steps_def basic_steps_def pro_steps_def Let_def add_long_def
      add_short_def add_both_def penalty_long_def penalty_short_def ex_events)

lemma ex_gate_pro:
  "gate_failure (ex_frame True) = Some ''Pro mode: no liquidity sweep / OB retest trigger''"
  by (simp add: gate_failure_def Let_def ex_events)

lemma ex_pro_result:
  "compute_scalp_signal (\<lambda>t. ''OPENING'') ''ABC'' ex_bars ex_rsi_fast ex_rsi_slow ex_macd_hist
      ''Cleaner signals'' True True False True 180 =
   Inr \<lparr>symbol = ''ABC'', bias = ''NEUTRAL'', setup_score = 115,
        reason = ''Pro mode: no liquidity sweep / OB retest trigger'',
        entry = None, stop = None, target_1r = None, target_2r = None,
        last_price = Some 101, timestamp = Some 59, session = ''OPENING'',
        extras = make_extras (ex_frame True)\<rparr>"
proof -
  have ne: "ex_bars \<noteq> []"
    using length_ex_bars by auto
  have "compute_scalp_signal (\<lambda>t. ''OPENING'') ''ABC'' ex_bars ex_rsi_fast ex_rsi_slow
      ex_macd_hist ''Cleaner signals'' True True False True 180 =
      Inr (decide ''ABC'' ''OPENING'' (ex_frame True))"
    by (simp add: compute_scalp_signal_def length_ex_bars ex_cfg ex_bars_tail_180
        ex_bars_oscillators ne session_allowed_def ex_bars_order_blocks ex_frame_def
        Let_def)
  then show ?thesis
    by (simp add: decide_def ex_gate_pro ex_scoring_pro Let_def
        ex_frame_fields last_ex_bars bar_fields)
qed

lemma ex_scoring_basic:
  "scoring (ex_frame False) =
     \<lparr>long_points = 100,
      long_reasons = [''VWAP reclaim'', ''RSI-5 snapback (RSI-14 ok)'', ''MACD hist turning up'',
                      ''Volume confirmation'', ''Higher-low micro structure''],
      short_points = 15, short_reasons = [''Volume confirmation'']\<rparr>"
  by (simp add: scoring_def run_steps_def basic_steps_def Let_def add_long_def add_short_def
      ex_events)

lemma ex_gate_basic: "gate_failure (ex_frame False) = None"
  by (simp add: gate_failure_def Let_def ex_events)

lemma ex_long_result:
  "compute_scalp_signal (\<lambda>t. ''OPENING'') ''ABC'' ex_bars ex_rsi_fast ex_rsi_slow ex_macd_hist
      ''Cleaner signals'' False True False True 180 = Inr ex_long_signal"
proof -
  have ne: "ex_bars \<noteq> []"
    using length_ex_bars by auto
  have "compute_scalp_signal (\<lambda>t. ''OPENING'') ''ABC'' ex_bars ex_rsi_fast ex_rsi_slow
      ex_macd_hist ''Cleaner signals'' False True False True 180 =
      Inr (decide ''ABC'' ''OPENING'' (ex_frame False))"
    by (simp add: compute_scalp_signal_def length_ex_bars ex_cfg ex_bars_tail_180
        ex_bars_oscillators ne session_allowed_def ex_bars_order_blocks ex_frame_def
        Let_def)
  then show ?thesis
    by (simp add: decide_def ex_gate_basic ex_scoring_basic Let_def ex_frame_fields
        cleaner_signals_def last_ex_bars bar_fields ex_bars_swing_refs ex_bars_atr_last
        ex_long_signal_def)
qed

section \<open>Witnesses on the example\<close>

theorem decision_rule_witness:
  "bias ex_long_signal = ''LONG'' \<and>
   min_actionable_score (PRESETS_get ''Cleaner signals'') \<le> long_points (scoring (ex_frame False)) \<and>
   short_points (scoring (ex_frame False)) < long_points (scoring (ex_frame False)) \<and>
   gate_failure (ex_frame False) = None"
proof -
  have len: "60 \<le> length ex_bars"
    by (simp add: length_ex_bars)
  have allowed: "session_allowed ((\<lambda>t. ''OPENING'') (b_ts (last ex_bars))) True False True"
    by (simp add: session_allowed_def)
  have osc: "oscillators (tail_df 180 ex_bars) ex_rsi_fast ex_rsi_slow ex_macd_hist = Inr ex_osc"
    by (simp add: ex_bars_tail_180 ex_bars_oscillators)
  have obs: "order_blocks (tail_df 180 ex_bars) = Inr (Some (98.5, 98.6, 56), None)"
    by (simp add: ex_bars_tail_180 ex_bars_order_blocks)
  have F: "ex_frame False =
      mk_frame (PRESETS_get ''Cleaner signals'') False (tail_df 180 ex_bars) ex_osc (Some (98.5, 98.6, 56), None)"
    by (simp add: ex_frame_def ex_cfg ex_bars_tail_180)
  have b: "bias ex_long_signal = ''LONG''"
    by (simp add: ex_long_signal_def)
  show ?thesis
    using decision_rule [OF ex_long_result len allowed osc obs F ex_gate_basic] b ex_gate_basic
    by simp
qed



section \<open>A window without an ATR value\<close>
























text \<open>
  The bound on the entry is needed for the order of entry and target_1r: at the entry
  \<open>2^47\<close> the floats are 1/32 apart, and a risk of 0.01 leaves target_1r at the entry.
\<close>

lemma long_levels_f64_at_2_47:
  "long_levels_f64 (2 ^ 47) (2 ^ 47) 0 = (2 ^ 47, 2 ^ 47, 2 ^ 47, 2 ^ 47 + 1 / 32)"
proof -
  have a: "rnd (2 ^ 47) = 2 ^ 47"
    by (simp add: rnd_eval [of 47] round_half_even_def Let_def)
  have t1: "rnd (2 ^ 47 + 5764607523034235 / 2 ^ 59) = 2 ^ 47"
    by (simp add: rnd_eval [of 47] round_half_even_def Let_def)
  have d: "rnd (2 * (5764607523034235 / 2 ^ 59)) = 5764607523034235 / 2 ^ 58"
    by (simp add: rnd_eval [of "-6"] round_half_even_def Let_def)
  have t2: "rnd (2 ^ 47 + 5764607523034235 / 2 ^ 58) = 2 ^ 47 + 1 / 32"
    by (simp add: rnd_eval [of 47] round_half_even_def Let_def)
  have m: "max 0 (rnd (1 / 100)) = rnd (1 / 100)"
    by (simp add: rnd_cent)
  have "long_levels_f64 (2 ^ 47) (2 ^ 47) 0 =
      (2 ^ 47, 2 ^ 47, rnd (2 ^ 47 + rnd (1 / 100)), rnd (2 ^ 47 + rnd (2 * rnd (1 / 100))))"
    using a by (simp add: long_levels_f64_def Let_def m)
  also have "\<dots> = (2 ^ 47, 2 ^ 47, 2 ^ 47, 2 ^ 47 + 1 / 32)"
    by (simp only: rnd_cent d t1 t2)
  finally show ?thesis .
qed

text \<open>
  C1 does not hold of the code: on the first series, with the default lookback
  and pro mode on, the pro-mode requirement returns NEUTRAL with the score 115. The
  gate returns report the higher raw total without the clamp that the LONG and SHORT
  returns apply.
\<close>

theorem pro_mode_neutral_score_above_100:
  "(case compute_scalp_signal (\<lambda>t. ''OPENING'') ''ABC'' ex_bars ex_rsi_fast ex_rsi_slow
           ex_macd_hist ''Cleaner signals'' True True False True 180 of
      Inl e \<Rightarrow> False
    | Inr r \<Rightarrow>
        bias r = ''NEUTRAL'' \<and> setup_score r = 115 \<and> \<not> setup_score r \<le> 100 \<and>
        reason r = ''Pro mode: no liquidity sweep / OB retest trigger'')"
  by (simp add: ex_pro_result)

end
